theory Spec2Isabelle
  imports Complex_Main "HOL-Library.Sublist"
begin

section \<open>Values exchanged with the server\<close>

text \<open>
  A finite \<^verbatim>\<open>decimal.Decimal\<close>: sign, coefficient and exponent, denoting
  \<open>(-1)^sign * coefficient * 10^exponent\<close>. The parser only ever builds finite decimals.
\<close>

datatype decimal = Decimal (dec_neg: bool) (dec_coeff: nat) (dec_exp: int)

text \<open>
  What \<^verbatim>\<open>json.loads(..., parse_float=decimal.Decimal)\<close> returns and what
  \<^verbatim>\<open>json.dumps(..., default=EncodeDecimal)\<close> accepts: the JSON-native Python values
  plus \<^verbatim>\<open>Decimal\<close>. A \<^verbatim>\<open>dict\<close> is an association list read with \<open>map_of\<close>.
\<close>

datatype json =
    JNull
  | JBool bool
  | JInt int
  | JDec decimal
  | JStr string
  | JArr "json list"
  | JObj "(string \<times> json) list"

text \<open>The attributes of a \<^verbatim>\<open>JSONRPCException\<close>: \<^verbatim>\<open>error\<close>, \<^verbatim>\<open>code\<close>, \<^verbatim>\<open>message\<close>.\<close>

record rpc_exception =
  error :: json
  code :: "json option"
  message :: "json option"

text \<open>
  Everything a call can raise. \<open>ClientError\<close> stands for the exceptions of the HTTP
  client library (connection refused and the like), \<open>TimeoutError\<close> for the one
  \<^verbatim>\<open>asyncio.wait_for\<close> raises, \<open>RuntimeError\<close> for the use of a closed session.
\<close>

datatype exn =
    JSONRPCException rpc_exception
  | AttributeError
  | KeyError string
  | TypeError
  | IndexError
  | InvalidOperation
  | TimeoutError
  | ClientError string
  | RuntimeError string

subsection \<open>Python's \<^verbatim>\<open>in\<close> and subscripting on decoded values\<close>

text \<open>\<^verbatim>\<open>k in v\<close> for a string \<open>k\<close>: key of a dict, substring of a string, element of a
  list; every other value is not iterable.\<close>

fun py_in :: "string \<Rightarrow> json \<Rightarrow> exn + bool" where
  "py_in k (JObj kvs) = Inr (k \<in> fst ` set kvs)"
| "py_in k (JStr s) = Inr (sublist k s)"
| "py_in k (JArr xs) = Inr (JStr k \<in> set xs)"
| "py_in k v = Inl TypeError"

text \<open>\<^verbatim>\<open>v[k]\<close> for a string \<open>k\<close>: only a dict can be subscripted by a string.\<close>

fun py_getitem :: "json \<Rightarrow> string \<Rightarrow> exn + json" where
  "py_getitem (JObj kvs) k = (case map_of kvs k of None \<Rightarrow> Inl (KeyError k) | Some v \<Rightarrow> Inr v)"
| "py_getitem v k = Inl TypeError"

text \<open>\<^verbatim>\<open>v.get(k)\<close>: only a dict has \<^verbatim>\<open>get\<close>; a missing key gives \<^verbatim>\<open>None\<close>.\<close>

fun py_get :: "json \<Rightarrow> string \<Rightarrow> exn + json" where
  "py_get (JObj kvs) k = (case map_of kvs k of None \<Rightarrow> Inr JNull | Some v \<Rightarrow> Inr v)"
| "py_get v k = Inl AttributeError"

subsection \<open>\<^verbatim>\<open>JSONRPCException.__init__\<close>\<close>

text \<open>
  \<^verbatim>\<open>self.code = rpc_error['code'] if 'code' in rpc_error else None\<close>, and the same for
  \<^verbatim>\<open>message\<close>. The \<^verbatim>\<open>try: parent_args.append(rpc_error['message'])\<close> before them
  swallows its own failure, so only these two attribute lines can raise.
\<close>

definition field_or_none :: "json \<Rightarrow> string \<Rightarrow> exn + json option" where
  "field_or_none rpc_error k =
     (case py_in k rpc_error of
        Inl e \<Rightarrow> Inl e
      | Inr False \<Rightarrow> Inr None
      | Inr True \<Rightarrow> (case py_getitem rpc_error k of Inl e \<Rightarrow> Inl e | Inr v \<Rightarrow> Inr (Some v)))"

definition new_JSONRPCException :: "json \<Rightarrow> exn" where
  "new_JSONRPCException rpc_error =
     (case field_or_none rpc_error ''code'' of
        Inl e \<Rightarrow> e
      | Inr c \<Rightarrow>
          (case field_or_none rpc_error ''message'' of
             Inl e \<Rightarrow> e
           | Inr m \<Rightarrow> JSONRPCException \<lparr>error = rpc_error, code = c, message = m\<rparr>))"

text \<open>The exception built from the literal \<^verbatim>\<open>{'code': c, 'message': m}\<close>.\<close>

definition rpc_error_lit :: "int \<Rightarrow> string \<Rightarrow> json" where
  "rpc_error_lit c m = JObj [(''code'', JInt c), (''message'', JStr m)]"

section \<open>The numeric codec\<close>

text \<open>The numeric value of a decimal.\<close>

definition dec_val :: "decimal \<Rightarrow> rat" where
  "dec_val d =
     (if dec_neg d then - 1 else 1) * of_nat (dec_coeff d)
       * (if 0 \<le> dec_exp d then 10 ^ nat (dec_exp d) else 1 / 10 ^ nat (- dec_exp d))"

text \<open>Integer division rounding to the nearest quotient, ties to the even one
  (\<^verbatim>\<open>ROUND_HALF_EVEN\<close>, the rounding of the default decimal context and of binary64).\<close>

definition div_half_even :: "nat \<Rightarrow> nat \<Rightarrow> nat" where
  "div_half_even a b =
     (let q = a div b; r = a mod b
      in if 2 * r < b then q
         else if b < 2 * r then q + 1
         else if even q then q else q + 1)"

text \<open>
  \<^verbatim>\<open>round(o, 8)\<close> on a decimal is \<^verbatim>\<open>o.quantize(Decimal('1E-8'))\<close> in the default
  context (28 digits of precision, half-even): the coefficient in units of \<open>10^-8\<close>,
  and \<^verbatim>\<open>InvalidOperation\<close> when that coefficient needs more than 28 digits.
\<close>

definition round8 :: "decimal \<Rightarrow> exn + decimal" where
  "round8 d =
     (let k = (if - 8 \<le> dec_exp d then dec_coeff d * 10 ^ nat (dec_exp d + 8)
               else div_half_even (dec_coeff d) (10 ^ nat (- dec_exp d - 8)))
      in if 10 ^ 28 \<le> k then Inl InvalidOperation
         else Inr (Decimal (dec_neg d) k (- 8)))"

text \<open>The number of binary digits and of decimal digits of a natural number.\<close>

fun bitlen :: "nat \<Rightarrow> nat" where
  "bitlen n = (if n = 0 then 0 else Suc (bitlen (n div 2)))"

fun declen :: "nat \<Rightarrow> nat" where
  "declen n = (if n = 0 then 0 else Suc (declen (n div 10)))"


text \<open>
  The exponent \<open>e\<close> with \<open>b^e \<le> n/d < b^(e+1)\<close>, for positive \<open>n\<close> and \<open>d\<close>, from the
  digit counts of \<open>n\<close> and \<open>d\<close> in base \<open>b\<close>.
\<close>

definition floor_log :: "nat \<Rightarrow> (nat \<Rightarrow> nat) \<Rightarrow> nat \<Rightarrow> nat \<Rightarrow> int" where
  "floor_log b len n d =
     (let e0 = int (len n) - int (len d)
      in if (if 0 \<le> e0 then d * b ^ nat e0 \<le> n else d \<le> n * b ^ nat (- e0)) then e0
         else e0 - 1)"

text \<open>
  A finite Python \<^verbatim>\<open>float\<close> (binary64): sign, 53-bit significand \<open>m\<close> and exponent
  \<open>e\<close>, denoting \<open>m * 2^(e - 52)\<close> with \<open>2^52 \<le> m < 2^53\<close>, or zero.
\<close>

datatype float64 = Float64 (f_neg: bool) (f_mant: nat) (f_exp: int)


text \<open>
  \<^verbatim>\<open>float(x)\<close> of a decimal is the binary64 nearest to it, ties to even. The quotient
  \<open>n/d\<close> is within the normal range of binary64, which holds for every decimal that
  \<^verbatim>\<open>round(o, 8)\<close> returns.
\<close>

definition f64_nearest :: "bool \<Rightarrow> nat \<Rightarrow> nat \<Rightarrow> float64" where
  "f64_nearest sg n d =
     (if n = 0 then Float64 sg 0 0
      else
        let e = floor_log 2 bitlen n d;
            s = 52 - e;
            m = (if 0 \<le> s then div_half_even (n * 2 ^ nat s) d
                 else div_half_even n (d * 2 ^ nat (- s)))
        in if m = 2 ^ 53 then Float64 sg (2 ^ 52) (e + 1) else Float64 sg m e)"

definition float_of_decimal :: "decimal \<Rightarrow> float64" where
  "float_of_decimal d =
     (if 0 \<le> dec_exp d then f64_nearest (dec_neg d) (dec_coeff d * 10 ^ nat (dec_exp d)) 1
      else f64_nearest (dec_neg d) (dec_coeff d) (10 ^ nat (- dec_exp d)))"

text \<open>\<^verbatim>\<open>EncodeDecimal(o)\<close>, the \<^verbatim>\<open>default\<close> hook of the encoder.\<close>

fun EncodeDecimal :: "json \<Rightarrow> exn + float64" where
  "EncodeDecimal (JDec o') =
     (case round8 o' of Inl e \<Rightarrow> Inl e | Inr r \<Rightarrow> Inr (float_of_decimal r))"
| "EncodeDecimal v = Inl TypeError"

text \<open>
  \<^verbatim>\<open>json.dumps\<close> writes a float with \<^verbatim>\<open>float.__repr__\<close>: the shortest decimal
  literal that reads back as the same float, and the one nearest to the float among those
  of that length. For a positive float \<open>n/d\<close>, the candidates with \<open>k\<close> significant
  digits are the two multiples of \<open>10^(e-k+1)\<close> around it, \<open>10^e\<close> being its leading
  power of ten.
\<close>

definition repr_candidates :: "bool \<Rightarrow> nat \<Rightarrow> nat \<Rightarrow> nat \<Rightarrow> decimal list" where
  "repr_candidates sg n d k =
     (let q = floor_log 10 declen n d - int k + 1;
          n' = (if 0 \<le> q then n else n * 10 ^ nat (- q));
          d' = (if 0 \<le> q then d * 10 ^ nat q else d);
          lo = n' div d';
          r = n' mod d'
      in if r = 0 then [Decimal sg lo q]
         else if 2 * r \<le> d' then [Decimal sg lo q, Decimal sg (lo + 1) q]
         else [Decimal sg (lo + 1) q, Decimal sg lo q])"

text \<open>The first candidate, nearest first, that reads back as the float \<open>x\<close>.\<close>

definition repr_with :: "float64 \<Rightarrow> nat \<Rightarrow> nat \<Rightarrow> nat \<Rightarrow> decimal option" where
  "repr_with x n d k =
     (case filter (\<lambda>c. float_of_decimal c = x) (repr_candidates (f_neg x) n d k) of
        [] \<Rightarrow> None
      | c # _ \<Rightarrow> Some c)"

text \<open>The first length, in the order given, for which a candidate reads back.\<close>

fun repr_first :: "float64 \<Rightarrow> nat \<Rightarrow> nat \<Rightarrow> nat list \<Rightarrow> decimal option" where
  "repr_first x n d [] = None"
| "repr_first x n d (k # ks) =
     (case repr_with x n d k of
        Some c \<Rightarrow> Some c
      | None \<Rightarrow> repr_first x n d ks)"

text \<open>Trailing zeros of a coefficient, moved into the exponent.\<close>

fun strip_zeros :: "nat \<Rightarrow> int \<Rightarrow> nat \<times> int" where
  "strip_zeros m q =
     (if m \<noteq> 0 \<and> m mod 10 = 0 then strip_zeros (m div 10) (q + 1) else (m, q))"

text \<open>
  The literal that \<^verbatim>\<open>float.__repr__\<close> writes for the digits \<open>m\<close> (without trailing
  zeros) and the exponent \<open>q\<close>, as the decimal that the decimal-preserving parser
  (\<^verbatim>\<open>JsonWrapper\<close>, \<^verbatim>\<open>parse_float=decimal.Decimal\<close>) reads from it. With \<open>decpt\<close> the
  position of the decimal point after the first of the digits, the notation is fixed for
  \<open>-4 < decpt \<le> 16\<close> and scientific otherwise. In fixed notation an integer is written
  with its zeros and with \<^verbatim>\<open>.0\<close> appended (\<^verbatim>\<open>100.0\<close>, read as 1000E-1); in the other
  cases the parser reads the digits \<open>m\<close> and the exponent \<open>q\<close>
  (\<^verbatim>\<open>12.3456789\<close> as 123456789E-7, \<^verbatim>\<open>1.5e+16\<close> as 15E+15).
\<close>

definition repr_literal :: "decimal \<Rightarrow> decimal" where
  "repr_literal c =
     (case strip_zeros (dec_coeff c) (dec_exp c) of
        (m, q) \<Rightarrow>
          let decpt = q + int (declen m)
          in if 0 \<le> q \<and> - 4 < decpt \<and> decpt \<le> 16
             then Decimal (dec_neg c) (m * 10 ^ nat (q + 1)) (- 1)
             else Decimal (dec_neg c) m q)"

text \<open>
  The literal written for the float \<open>x\<close>, as the parser reads it: a float literal always
  has a fraction or an exponent, so it is read by \<^verbatim>\<open>parse_float\<close>. Zero is written
  \<^verbatim>\<open>0.0\<close> or \<^verbatim>\<open>-0.0\<close>. Lengths of 1 to 17 digits are tried; \<open>None\<close> would mean that
  none of them reads back.
\<close>

definition repr_lengths :: "nat list" where
  "repr_lengths = [1, 2, 3, 4, 5, 6, 7, 8, 9, 10, 11, 12, 13, 14, 15, 16, 17]"

definition float_repr :: "float64 \<Rightarrow> decimal option" where
  "float_repr x =
     (if f_mant x = 0 then Some (Decimal (f_neg x) 0 (- 1))
      else
        map_option repr_literal
          (if 52 \<le> f_exp x
           then repr_first x (f_mant x * 2 ^ nat (f_exp x - 52)) 1 repr_lengths
           else repr_first x (f_mant x) (2 ^ nat (52 - f_exp x)) repr_lengths))"

text \<open>Encoding a decimal argument and decoding the server's echo of the literal.\<close>

definition echo :: "decimal \<Rightarrow> exn + decimal option" where
  "echo d = (case EncodeDecimal (JDec d) of Inl e \<Rightarrow> Inl e | Inr x \<Rightarrow> Inr (float_repr x))"

text \<open>
  Whether \<^verbatim>\<open>json.dumps(v, default=EncodeDecimal)\<close> returns: the only values that reach
  the \<^verbatim>\<open>default\<close> hook are the decimals, and the hook fails where \<^verbatim>\<open>round\<close> does.
\<close>

fun encodable :: "json \<Rightarrow> bool" where
  "encodable (JDec d) = (case EncodeDecimal (JDec d) of Inl e \<Rightarrow> False | Inr x \<Rightarrow> True)"
| "encodable (JArr xs) = (\<forall>x \<in> set xs. encodable x)"
| "encodable (JObj kvs) = (\<forall>x \<in> set (map snd kvs). encodable x)"
| "encodable v = True"

section \<open>The call proxy\<close>

text \<open>
  An \<^verbatim>\<open>AuthServiceProxy\<close> instance. A connection is a handle into the table of client
  sessions of the process. The parsed URL and the authentication header are functions of
  \<open>service_url\<close> alone and are not repeated here.
\<close>

record proxy =
  service_url :: string
  service_name :: "string option"
  timeout :: int
  aiohttp_client_session :: "nat option"
  aiohttp_must_close :: bool

definition HTTP_TIMEOUT :: int where
  "HTTP_TIMEOUT = 30"

text \<open>
  \<^verbatim>\<open>AuthServiceProxy.__init__(service_url, service_name, timeout, connection)\<close>. The
  constructor raises for a URL from which no user name and password can be read (line 110);
  a value of type \<open>proxy\<close> stands for an instance whose construction has succeeded, and
  \<^verbatim>\<open>__getattr__\<close> constructs from the URL of such an instance.
\<close>

definition init :: "string \<Rightarrow> string option \<Rightarrow> int \<Rightarrow> nat option \<Rightarrow> proxy" where
  "init url name t connection =
     \<lparr>service_url = url, service_name = name, timeout = t,
      aiohttp_client_session = connection, aiohttp_must_close = False\<rparr>"

text \<open>\<^verbatim>\<open>str.startswith\<close> and \<^verbatim>\<open>str.endswith\<close>\<close>

definition startswith :: "string \<Rightarrow> string \<Rightarrow> bool" where
  "startswith s p \<longleftrightarrow> take (length p) s = p"

definition endswith :: "string \<Rightarrow> string \<Rightarrow> bool" where
  "endswith s p \<longleftrightarrow> length p \<le> length s \<and> drop (length s - length p) s = p"

text \<open>\<^verbatim>\<open>AuthServiceProxy.__getattr__(self, name)\<close>\<close>

definition getattr :: "proxy \<Rightarrow> string \<Rightarrow> exn + proxy" where
  "getattr self name =
     (if startswith name ''__'' \<and> endswith name ''__'' then Inl AttributeError
      else
        let name' = (case service_name self of
                       None \<Rightarrow> name
                     | Some p \<Rightarrow> p @ ''.'' @ name)
        in Inr (init (service_url self) (Some name') (timeout self) (aiohttp_client_session self)))"

text \<open>Attribute access along a chain of names, stopping at the first failure.\<close>

fun getattr_chain :: "proxy \<Rightarrow> string list \<Rightarrow> exn + proxy" where
  "getattr_chain self [] = Inr self"
| "getattr_chain self (n # ns) =
     (case getattr self n of Inl e \<Rightarrow> Inl e | Inr p \<Rightarrow> getattr_chain p ns)"

text \<open>A name of the dunder form: it starts with two underscores and ends with two.\<close>

definition dunder :: "string \<Rightarrow> bool" where
  "dunder name \<longleftrightarrow> prefix ''__'' name \<and> suffix ''__'' name"

text \<open>The names of a chain joined by dots.\<close>

fun dotted :: "string list \<Rightarrow> string" where
  "dotted [] = []"
| "dotted [n] = n"
| "dotted (n # ns) = n @ ''.'' @ dotted ns"

text \<open>
  The expression \<^verbatim>\<open>proxy.name\<close>. Normal lookup comes first and \<^verbatim>\<open>__getattr__\<close> is
  the fallback for the names it does not find. Normal lookup finds the fields that
  \<^verbatim>\<open>__init__\<close> assigns (lines 92-113), the names bound in the class body (lines 84-196),
  private names in their mangled form, and the names that the runtime gives to every object
  (such as \<^verbatim>\<open>__class__\<close> and \<^verbatim>\<open>__dict__\<close>). The last ones are not in the source and
  are a parameter.
\<close>

definition instance_names :: "string list" where
  "instance_names =
     [''_AuthServiceProxy__service_url'', ''_AuthServiceProxy__service_name'',
      ''_AuthServiceProxy__url'', ''_AuthServiceProxy__aiohttp_client_session'',
      ''_AuthServiceProxy__aiohttp_must_close'', ''_AuthServiceProxy__auth_header'',
      ''_AuthServiceProxy__timeout'']"

definition class_names :: "string list" where
  "class_names =
     [''_AuthServiceProxy__id_count'', ''__init__'', ''__getattr__'', ''__call__'',
      ''_get_shared_client'', ''batch_'', ''_get_response'']"

definition lookup_names :: "string list \<Rightarrow> string list" where
  "lookup_names inherited = instance_names @ class_names @ inherited"

text \<open>
  What an attribute access gives: the attribute of that name that the object has (a field,
  a method, the counter), or the proxy that \<^verbatim>\<open>__getattr__\<close> derives.
\<close>

datatype attr = Found string | Derived proxy

definition attribute_access :: "string list \<Rightarrow> proxy \<Rightarrow> string \<Rightarrow> exn + attr" where
  "attribute_access inherited self name =
     (if name \<in> set (lookup_names inherited) then Inr (Found name)
      else case getattr self name of
             Inl e \<Rightarrow> Inl e
           | Inr p \<Rightarrow> Inr (Derived p))"

text \<open>
  Attribute access along a chain of names, as long as it stays among proxies: it stops at
  the first failure and at the first attribute that is not a derived proxy.
\<close>

fun access_chain :: "string list \<Rightarrow> proxy \<Rightarrow> string list \<Rightarrow> exn + attr" where
  "access_chain inherited self [] = Inr (Derived self)"
| "access_chain inherited self (n # ns) =
     (case attribute_access inherited self n of
        Inl e \<Rightarrow> Inl e
      | Inr (Found m) \<Rightarrow> Inr (Found m)
      | Inr (Derived p) \<Rightarrow> access_chain inherited p ns)"

section \<open>The process and the transport\<close>

text \<open>
  The state shared by all proxies of a process: the class attribute \<^verbatim>\<open>__id_count\<close>,
  the table of client sessions (for each handle, whether it has been closed), and the
  requests handed to a session so far (handle and body, before serialisation).
\<close>

record world =
  id_count :: int
  closed :: "bool list"
  requests :: "(nat \<times> json) list"

text \<open>
  The HTTP response as the code reads it: what \<^verbatim>\<open>resp.json(loads=JsonWrapper())\<close> gives
  (\<open>None\<close> when it raises, \<open>Some JNull\<close> when it returns \<^verbatim>\<open>None\<close>), the
  \<^verbatim>\<open>Content-Type\<close> header if any, the status and the reason.
\<close>

record http_response =
  json_body :: "json option"
  content_type :: "string option"
  status :: int
  reason :: string

text \<open>What awaiting the request comes to: the time limit fires, the client library fails,
  or a response arrives.\<close>

datatype reply = Timeout | Refused string | Reply http_response

text \<open>\<^verbatim>\<open>'%i' % n\<close>\<close>

fun digits :: "nat \<Rightarrow> string" where
  "digits n = (if n < 10 then [''0123456789'' ! n]
               else digits (n div 10) @ [''0123456789'' ! (n mod 10)])"

definition str_int :: "int \<Rightarrow> string" where
  "str_int i = (if i < 0 then CHR ''-'' # digits (nat (- i)) else digits (nat i))"

text \<open>\<^verbatim>\<open>AuthServiceProxy._get_shared_client(self)\<close>: a new session gets the next handle.\<close>

definition get_shared_client :: "proxy \<Rightarrow> world \<Rightarrow> nat \<times> proxy \<times> world" where
  "get_shared_client self w =
     (case aiohttp_client_session self of
        None \<Rightarrow>
          (length (closed w),
           self\<lparr>aiohttp_client_session := Some (length (closed w)), aiohttp_must_close := True\<rparr>,
           w\<lparr>closed := closed w @ [False]\<rparr>)
      | Some h \<Rightarrow> (h, self, w))"

definition close_session :: "nat \<Rightarrow> world \<Rightarrow> world" where
  "close_session h w = w\<lparr>closed := (closed w)[h := True]\<rparr>"

text \<open>\<^verbatim>\<open>if self.__aiohttp_must_close: await self._get_shared_client().close()\<close>\<close>

definition close_if_owned :: "proxy \<Rightarrow> world \<Rightarrow> proxy \<times> world" where
  "close_if_owned self w =
     (if aiohttp_must_close self
      then (case get_shared_client self w of (h, self', w') \<Rightarrow> (self', close_session h w'))
      else (self, w))"

text \<open>
  \<^verbatim>\<open>session.request(method="POST", url=..., data=postdata, headers=...)\<close>, awaited: a
  closed session refuses the request.
\<close>

definition request :: "nat \<Rightarrow> json \<Rightarrow> reply \<Rightarrow> world \<Rightarrow> (exn + http_response) \<times> world" where
  "request h postdata r w =
     ((if h < length (closed w) \<and> closed w ! h then Inl (RuntimeError ''Session is closed'')
       else case r of
              Timeout \<Rightarrow> Inl TimeoutError
            | Refused m \<Rightarrow> Inl (ClientError m)
            | Reply resp \<Rightarrow> Inr resp),
      w\<lparr>requests := requests w @ [(h, postdata)]\<rparr>)"

section \<open>Decoding a response\<close>

text \<open>
  The trace line at the end of \<^verbatim>\<open>_get_response\<close>: its arguments are evaluated before
  it is written, so it raises what \<^verbatim>\<open>"error" in json_response\<close>,
  \<^verbatim>\<open>json_response["error"]\<close>, \<^verbatim>\<open>json_response["id"]\<close>,
  \<^verbatim>\<open>json_response["result"]\<close> and the encoding of the result raise.
\<close>

definition log_response :: "json \<Rightarrow> exn option" where
  "log_response j =
     (case py_in ''error'' j of
        Inl e \<Rightarrow> Some e
      | Inr False \<Rightarrow> None
      | Inr True \<Rightarrow>
          (case py_getitem j ''error'' of
             Inl e \<Rightarrow> Some e
           | Inr err \<Rightarrow>
               if err = JNull then
                 (case py_getitem j ''id'' of
                    Inl e \<Rightarrow> Some e
                  | Inr i \<Rightarrow>
                      (case py_getitem j ''result'' of
                         Inl e \<Rightarrow> Some e
                       | Inr res \<Rightarrow> if encodable res then None else Some InvalidOperation))
               else None))"

definition missing_response :: exn where
  "missing_response = new_JSONRPCException (rpc_error_lit (- 342) ''missing HTTP response from server'')"

definition non_json_response :: "int \<Rightarrow> string \<Rightarrow> exn" where
  "non_json_response st rs =
     new_JSONRPCException (rpc_error_lit (- 342)
       (''non-JSON HTTP response with '' @ [CHR 0x27] @ str_int st @ '' '' @ rs @ [CHR 0x27]
          @ '' from server''))"

text \<open>\<^verbatim>\<open>AuthServiceProxy._get_response(self, resp)\<close>\<close>

definition get_response :: "proxy \<Rightarrow> http_response \<Rightarrow> world \<Rightarrow> (exn + json) \<times> proxy \<times> world" where
  "get_response self resp w =
     (let json_response = (case json_body resp of None \<Rightarrow> JNull | Some v \<Rightarrow> v)
      in case close_if_owned self w of
           (self', w') \<Rightarrow>
             (if json_response = JNull then Inl missing_response
              else if content_type resp \<noteq> Some ''application/json''
                then Inl (non_json_response (status resp) (reason resp))
              else (case log_response json_response of
                      Some e \<Rightarrow> Inl e
                    | None \<Rightarrow> Inr json_response),
              self', w'))"

section \<open>A single call\<close>

definition missing_result :: exn where
  "missing_result = new_JSONRPCException (rpc_error_lit (- 343) ''missing JSON-RPC result'')"

text \<open>The envelope of \<^verbatim>\<open>__call__\<close>.\<close>

definition envelope :: "string option \<Rightarrow> json list \<Rightarrow> int \<Rightarrow> json" where
  "envelope name args i =
     JObj [(''version'', JStr ''1.1''),
           (''method'', (case name of None \<Rightarrow> JNull | Some m \<Rightarrow> JStr m)),
           (''params'', JArr args),
           (''id'', JInt i)]"

text \<open>
  \<^verbatim>\<open>__call__\<close> up to the decoded response: the counter, the trace line and the
  envelope (both encode the arguments), the request under the time limit, the decoding,
  and the closing of an owned session.
\<close>

definition call_response :: "proxy \<Rightarrow> json list \<Rightarrow> reply \<Rightarrow> world \<Rightarrow> (exn + json) \<times> proxy \<times> world" where
  "call_response self args r w =
     (let w1 = w\<lparr>id_count := id_count w + 1\<rparr>
      in if \<not> encodable (JArr args) then (Inl InvalidOperation, self, w1)
         else
           case get_shared_client self w1 of
             (h, self1, w2) \<Rightarrow>
               (case request h (envelope (service_name self) args (id_count w1)) r w2 of
                  (Inl e, w3) \<Rightarrow> (Inl e, self1, w3)
                | (Inr resp, w3) \<Rightarrow>
                    (case get_response self1 resp w3 of
                       (Inl e, self2, w4) \<Rightarrow> (Inl e, self2, w4)
                     | (Inr response, self2, w4) \<Rightarrow>
                         (case close_if_owned self2 w4 of
                            (self3, w5) \<Rightarrow> (Inr response, self3, w5)))))"

text \<open>The end of \<^verbatim>\<open>__call__\<close>: the outcome read from the decoded response.\<close>

definition call_result :: "json \<Rightarrow> exn + json" where
  "call_result response =
     (case py_get response ''error'' of
        Inl e \<Rightarrow> Inl e
      | Inr err \<Rightarrow>
          if err \<noteq> JNull then Inl (new_JSONRPCException err)
          else (case py_in ''result'' response of
                  Inl e \<Rightarrow> Inl e
                | Inr False \<Rightarrow> Inl missing_result
                | Inr True \<Rightarrow> py_getitem response ''result''))"

text \<open>\<^verbatim>\<open>AuthServiceProxy.__call__(self, *args)\<close>\<close>

definition call :: "proxy \<Rightarrow> json list \<Rightarrow> reply \<Rightarrow> world \<Rightarrow> (exn + json) \<times> proxy \<times> world" where
  "call self args r w =
     (case call_response self args r w of
        (Inl e, self', w') \<Rightarrow> (Inl e, self', w')
      | (Inr response, self', w') \<Rightarrow> (call_result response, self', w'))"

section \<open>A batch call\<close>

text \<open>
  The first loop of \<^verbatim>\<open>batch_\<close>: for each descriptor the counter is incremented, the
  method is popped off the descriptor and an entry (method, parameters, id) is appended.
  The descriptors are distinct list objects of the caller; the function returns them as
  the loop leaves them, and the counter.
\<close>

fun batch_build ::
  "json list list \<Rightarrow> int \<Rightarrow> (exn + (json \<times> json list \<times> int) list) \<times> json list list \<times> int" where
  "batch_build [] c = (Inr [], [], c)"
| "batch_build ([] # rest) c = (Inl IndexError, [] # rest, c + 1)"
| "batch_build ((m # params) # rest) c =
     (case batch_build rest (c + 1) of
        (Inl e, rest', c') \<Rightarrow> (Inl e, params # rest', c')
      | (Inr entries, rest', c') \<Rightarrow> (Inr ((m, params, c + 1) # entries), params # rest', c'))"

definition batch_entry :: "json \<times> json list \<times> int \<Rightarrow> json" where
  "batch_entry x =
     (case x of (m, params, i) \<Rightarrow>
        JObj [(''jsonrpc'', JStr ''2.0''), (''method'', m), (''params'', JArr params), (''id'', JInt i)])"

text \<open>\<^verbatim>\<open>batch_\<close> up to the decoded response.\<close>

definition batch_response ::
  "proxy \<Rightarrow> json list list \<Rightarrow> reply \<Rightarrow> world \<Rightarrow> (exn + json) \<times> json list list \<times> proxy \<times> world" where
  "batch_response self rpc_calls r w =
     (case batch_build rpc_calls (id_count w) of
        (Inl e, calls', c') \<Rightarrow> (Inl e, calls', self, w\<lparr>id_count := c'\<rparr>)
      | (Inr entries, calls', c') \<Rightarrow>
          if \<not> encodable (JArr (map batch_entry entries))
          then (Inl InvalidOperation, calls', self, w\<lparr>id_count := c'\<rparr>)
          else
            case get_shared_client self (w\<lparr>id_count := c'\<rparr>) of
              (h, self1, w2) \<Rightarrow>
                (case request h (JArr (map batch_entry entries)) r w2 of
                   (Inl e, w3) \<Rightarrow> (Inl e, calls', self1, w3)
                 | (Inr resp, w3) \<Rightarrow>
                     (case get_response self1 resp w3 of
                        (res, self2, w4) \<Rightarrow> (res, calls', self2, w4))))"

text \<open>The second loop of \<^verbatim>\<open>batch_\<close>, over the per-call responses.\<close>

fun batch_results :: "json list \<Rightarrow> exn + json list" where
  "batch_results [] = Inr []"
| "batch_results (response # rest) =
     (case py_getitem response ''error'' of
        Inl e \<Rightarrow> Inl e
      | Inr err \<Rightarrow>
          if err \<noteq> JNull then Inl (new_JSONRPCException err)
          else (case py_in ''result'' response of
                  Inl e \<Rightarrow> Inl e
                | Inr False \<Rightarrow> Inl missing_result
                | Inr True \<Rightarrow>
                    (case py_getitem response ''result'' of
                       Inl e \<Rightarrow> Inl e
                     | Inr v \<Rightarrow>
                         (case batch_results rest of
                            Inl e \<Rightarrow> Inl e
                          | Inr vs \<Rightarrow> Inr (v # vs)))))"

definition parse_error :: exn where
  "parse_error = new_JSONRPCException (rpc_error_lit (- 32700) ''Parse error'')"

text \<open>
  The end of \<^verbatim>\<open>batch_\<close>: a dict is a rejection of the whole batch; anything else is
  iterated (a string character by character; a number or a boolean is not iterable).
\<close>

fun batch_decode :: "json \<Rightarrow> exn + json list" where
  "batch_decode (JObj kvs) =
     (case py_getitem (JObj kvs) ''error'' of
        Inl e \<Rightarrow> Inl parse_error
      | Inr err \<Rightarrow> if err \<noteq> JNull then Inl (new_JSONRPCException err) else Inl parse_error)"
| "batch_decode (JArr responses) = batch_results responses"
| "batch_decode (JStr s) = batch_results (map (\<lambda>c. JStr [c]) s)"
| "batch_decode v = Inl TypeError"

text \<open>\<^verbatim>\<open>AuthServiceProxy.batch_(self, rpc_calls)\<close>\<close>

definition batch ::
  "proxy \<Rightarrow> json list list \<Rightarrow> reply \<Rightarrow> world \<Rightarrow> (exn + json list) \<times> json list list \<times> proxy \<times> world" where
  "batch self rpc_calls r w =
     (case batch_response self rpc_calls r w of
        (Inl e, calls', self', w') \<Rightarrow> (Inl e, calls', self', w')
      | (Inr responses, calls', self', w') \<Rightarrow> (batch_decode responses, calls', self', w'))"


section \<open>Sequences of calls\<close>

text \<open>One use of a proxy: a single call with its arguments, or a batch call with its
  descriptors, and what awaiting the request comes to.\<close>

datatype invocation = Single "json list" reply | Many "json list list" reply

fun invoke :: "proxy \<Rightarrow> invocation \<Rightarrow> world \<Rightarrow> proxy \<times> world" where
  "invoke self (Single args r) w = snd (call self args r w)"
| "invoke self (Many rpc_calls r) w = snd (snd (batch self rpc_calls r w))"

text \<open>Uses of one proxy, one after the other.\<close>

fun invoke_all :: "proxy \<Rightarrow> invocation list \<Rightarrow> world \<Rightarrow> proxy \<times> world" where
  "invoke_all self [] w = (self, w)"
| "invoke_all self (i # is) w = (case invoke self i w of (self', w') \<Rightarrow> invoke_all self' is w')"

text \<open>Uses of any proxies of the process, one after the other.\<close>

fun run :: "world \<Rightarrow> (proxy \<times> invocation) list \<Rightarrow> world" where
  "run w [] = w"
| "run w ((p, i) # ops) = run (snd (invoke p i w)) ops"

text \<open>The number of envelopes a use builds.\<close>

fun envelopes :: "invocation \<Rightarrow> nat" where
  "envelopes (Single args r) = 1"
| "envelopes (Many rpc_calls r) = length rpc_calls"

text \<open>A use whose envelopes can be built and encoded: the arguments are encodable, and
  each descriptor holds a method name.\<close>

fun well_formed :: "invocation \<Rightarrow> bool" where
  "well_formed (Single args r) = encodable (JArr args)"
| "well_formed (Many rpc_calls r) =
     ((\<forall>c \<in> set rpc_calls. c \<noteq> []) \<and> (\<forall>c \<in> set rpc_calls. encodable (JArr c)))"

text \<open>The ids in the body of a request, in order.\<close>

fun envelope_id :: "json \<Rightarrow> int list" where
  "envelope_id (JObj kvs) = (case map_of kvs ''id'' of Some (JInt i) \<Rightarrow> [i] | _ \<Rightarrow> [])"
| "envelope_id v = []"

fun body_ids :: "json \<Rightarrow> int list" where
  "body_ids (JArr xs) = concat (map envelope_id xs)"
| "body_ids v = envelope_id v"

definition request_ids :: "world \<Rightarrow> int list" where
  "request_ids w = concat (map (\<lambda>x. body_ids (snd x)) (requests w))"

text \<open>Whether the session a proxy holds, if any, still takes requests.\<close>

definition usable :: "proxy \<Rightarrow> world \<Rightarrow> bool" where
  "usable self w =
     (case aiohttp_client_session self of
        None \<Rightarrow> True
      | Some h \<Rightarrow> \<not> (h < length (closed w) \<and> closed w ! h))"

section \<open>Exceptions built by the code\<close>

lemma field_or_none_obj: "field_or_none (JObj e) k = Inr (map_of e k)"
proof (cases "map_of e k")
  case None
  then have "k \<notin> fst ` set e" by (simp add: map_of_eq_None_iff)
  with None show ?thesis by (simp add: field_or_none_def)
next
  case (Some v)
  then have "k \<in> fst ` set e" by (metis map_of_eq_None_iff option.distinct(1))
  with Some show ?thesis by (simp add: field_or_none_def)
qed

lemma new_JSONRPCException_obj:
  "new_JSONRPCException (JObj e) =
     JSONRPCException \<lparr>error = JObj e, code = map_of e ''code'', message = map_of e ''message''\<rparr>"
  by (simp add: new_JSONRPCException_def field_or_none_obj)

lemma new_JSONRPCException_lit:
  "new_JSONRPCException (rpc_error_lit c m) =
     JSONRPCException \<lparr>error = rpc_error_lit c m, code = Some (JInt c), message = Some (JStr m)\<rparr>"
  by (simp add: rpc_error_lit_def new_JSONRPCException_obj)

lemma py_in_not_rpc: "py_in k j \<noteq> Inl (JSONRPCException x)"
  by (cases j) simp_all

lemma py_getitem_not_rpc: "py_getitem j k \<noteq> Inl (JSONRPCException x)"
  by (cases j) (simp_all split: option.splits)

lemma log_response_not_rpc: "log_response j \<noteq> Some (JSONRPCException x)"
  using py_in_not_rpc [of "''error''" j x] py_getitem_not_rpc [of j "''error''" x]
        py_getitem_not_rpc [of j "''id''" x] py_getitem_not_rpc [of j "''result''" x]
  by (auto simp: log_response_def split: sum.splits bool.splits if_splits)

section \<open>Dynamic dispatch\<close>

lemma startswith_prefix: "startswith s p \<longleftrightarrow> prefix p s"
proof
  assume "startswith s p"
  then have "s = p @ drop (length p) s"
    by (metis startswith_def append_take_drop_id)
  then show "prefix p s" by (metis prefixI)
next
  assume "prefix p s"
  then show "startswith s p" by (auto simp: startswith_def prefix_def)
qed

lemma endswith_suffix: "endswith s p \<longleftrightarrow> suffix p s"
proof
  assume "endswith s p"
  then have "s = take (length s - length p) s @ p"
    by (metis endswith_def append_take_drop_id)
  then show "suffix p s" by (metis suffixI)
next
  assume "suffix p s"
  then show "endswith s p" by (auto simp: endswith_def suffix_def)
qed

lemma getattr_plain:
  "\<not> dunder name \<Longrightarrow>
   getattr self name =
     Inr (init (service_url self)
            (Some (case service_name self of None \<Rightarrow> name | Some pre \<Rightarrow> pre @ ''.'' @ name))
            (timeout self) (aiohttp_client_session self))"
  by (simp add: getattr_def dunder_def startswith_prefix endswith_suffix)

lemma getattr_chain_prefixed:
  "ns \<noteq> [] \<Longrightarrow> \<forall>n \<in> set ns. \<not> dunder n \<Longrightarrow>
   \<exists>p. getattr_chain self ns = Inr p
     \<and> service_name p =
         Some (case service_name self of None \<Rightarrow> dotted ns | Some pre \<Rightarrow> pre @ ''.'' @ dotted ns)"
proof (induction ns arbitrary: self rule: dotted.induct)
  case 1
  then show ?case by simp
next
  case (2 n)
  then show ?case by (simp add: getattr_plain init_def split: option.splits)
next
  case (3 n m ms)
  let ?q = "init (service_url self)
              (Some (case service_name self of None \<Rightarrow> n | Some pre \<Rightarrow> pre @ ''.'' @ n))
              (timeout self) (aiohttp_client_session self)"
  from 3 have step: "getattr self n = Inr ?q"
    by (simp add: getattr_plain)
  from 3 have "\<forall>x \<in> set (m # ms). \<not> dunder x" by simp
  with "3.IH" [of ?q] obtain p where p: "getattr_chain ?q (m # ms) = Inr p"
      "service_name p =
         Some (case service_name ?q of None \<Rightarrow> dotted (m # ms)
               | Some pre \<Rightarrow> pre @ ''.'' @ dotted (m # ms))"
    by blast
  from step p(1) have "getattr_chain self (n # m # ms) = Inr p" by simp
  moreover from p(2) have
      "service_name p = Some (case service_name self of None \<Rightarrow> dotted (n # m # ms)
                              | Some pre \<Rightarrow> pre @ ''.'' @ dotted (n # m # ms))"
    by (simp add: init_def split: option.splits)
  ultimately show ?case by blast
qed

lemma dunder_examples:
  "\<not> dunder ''getbalance''" "dunder ''__len__''" "\<not> dunder ''a''" "\<not> dunder ''b''" "\<not> dunder ''c''"
  by (simp_all add: dunder_def suffix_def)

lemma attribute_access_fallback:
  "name \<notin> set (lookup_names inherited) \<Longrightarrow>
   attribute_access inherited self name =
     (case getattr self name of Inl e \<Rightarrow> Inl e | Inr p \<Rightarrow> Inr (Derived p))"
  by (simp add: attribute_access_def)

lemma access_chain_fallback:
  "\<forall>n \<in> set ns. n \<notin> set (lookup_names inherited) \<and> \<not> dunder n \<Longrightarrow>
   access_chain inherited self ns =
     (case getattr_chain self ns of Inl e \<Rightarrow> Inl e | Inr p \<Rightarrow> Inr (Derived p))"
proof (induction ns arbitrary: self)
  case Nil
  then show ?case by simp
next
  case (Cons n ns)
  then show ?case by (simp add: attribute_access_fallback getattr_plain)
qed

lemma lookup_examples:
  "''getbalance'' \<notin> set (lookup_names [''__class__'', ''__dict__'', ''__doc__'', ''__module__''])"
  "''__len__'' \<notin> set (lookup_names [''__class__'', ''__dict__'', ''__doc__'', ''__module__''])"
  "''__class__'' \<in> set (lookup_names [''__class__'', ''__dict__'', ''__doc__'', ''__module__''])"
  "\<forall>n \<in> set [''a'', ''b'', ''c''].
     n \<notin> set (lookup_names [''__class__'', ''__dict__'', ''__doc__'', ''__module__'']) \<and> \<not> dunder n"
  by (simp_all add: lookup_names_def instance_names_def class_names_def dunder_def suffix_def)

text \<open>
  C6, as the code has it: \<^verbatim>\<open>__getattr__\<close> is reached only for the names that normal
  lookup does not find on the proxy. For such a name that is not of the dunder form,
  attribute access returns a new proxy with the same endpoint, connection handle and
  timeout whose method name is the prefix, a dot and the name when there is a prefix, and
  the bare name otherwise; a chain of such names on a root proxy resolves to the names
  joined by dots (a, b, c to a.b.c). For such a name that starts and ends with two
  underscores, the access raises AttributeError. A name that normal lookup finds (a field,
  a method such as \<^verbatim>\<open>batch_\<close> or \<^verbatim>\<open>__call__\<close>, a name that every object has such as
  \<^verbatim>\<open>__class__\<close>) gives the attribute of that name: no derived proxy, and no AttributeError.
\<close>

theorem attribute_access_dispatch:
  "(name \<notin> set (lookup_names inherited) \<and> \<not> dunder name \<longrightarrow>
      (\<exists>p. attribute_access inherited self name = Inr (Derived p)
         \<and> service_url p = service_url self
         \<and> aiohttp_client_session p = aiohttp_client_session self
         \<and> timeout p = timeout self
         \<and> service_name p =
             Some (case service_name self of None \<Rightarrow> name | Some pre \<Rightarrow> pre @ ''.'' @ name)))
   \<and> (name \<notin> set (lookup_names inherited) \<and> dunder name \<longrightarrow>
        attribute_access inherited self name = Inl AttributeError)
   \<and> (name \<in> set (lookup_names inherited) \<longrightarrow>
        attribute_access inherited self name = Inr (Found name))
   \<and> (ns \<noteq> [] \<and> (\<forall>n \<in> set ns. n \<notin> set (lookup_names inherited) \<and> \<not> dunder n) \<longrightarrow>
        (\<exists>p. access_chain inherited (init url None t c) ns = Inr (Derived p)
           \<and> service_name p = Some (dotted ns)))"
proof (intro conjI impI)
  assume "name \<notin> set (lookup_names inherited) \<and> \<not> dunder name"
  then show "\<exists>p. attribute_access inherited self name = Inr (Derived p)
         \<and> service_url p = service_url self
         \<and> aiohttp_client_session p = aiohttp_client_session self
         \<and> timeout p = timeout self
         \<and> service_name p =
             Some (case service_name self of None \<Rightarrow> name | Some pre \<Rightarrow> pre @ ''.'' @ name)"
    by (simp add: attribute_access_fallback getattr_plain init_def)
next
  assume "name \<notin> set (lookup_names inherited) \<and> dunder name"
  then show "attribute_access inherited self name = Inl AttributeError"
    by (simp add: attribute_access_fallback getattr_def dunder_def startswith_prefix
        endswith_suffix)
next
  assume "name \<in> set (lookup_names inherited)"
  then show "attribute_access inherited self name = Inr (Found name)"
    by (simp add: attribute_access_def)
next
  assume a: "ns \<noteq> [] \<and> (\<forall>n \<in> set ns. n \<notin> set (lookup_names inherited) \<and> \<not> dunder n)"
  then have "ns \<noteq> []" and "\<forall>n \<in> set ns. \<not> dunder n" by simp_all
  then obtain p where p: "getattr_chain (init url None t c) ns = Inr p"
      "service_name p = Some (case service_name (init url None t c) of None \<Rightarrow> dotted ns
                              | Some pre \<Rightarrow> pre @ ''.'' @ dotted ns)"
    using getattr_chain_prefixed [of ns "init url None t c"] by blast
  from a have "access_chain inherited (init url None t c) ns =
      (case getattr_chain (init url None t c) ns of Inl e \<Rightarrow> Inl e | Inr p \<Rightarrow> Inr (Derived p))"
    by (simp add: access_chain_fallback)
  with p show "\<exists>p. access_chain inherited (init url None t c) ns = Inr (Derived p)
      \<and> service_name p = Some (dotted ns)"
    by (simp add: init_def)
qed

theorem attribute_access_dispatch_witness:
  "(\<exists>p. attribute_access [''__class__'', ''__dict__'', ''__doc__'', ''__module__'']
          (init ''http://u:p@h:8332'' (Some ''wallet'') 30 (Some 0)) ''getbalance'' = Inr (Derived p)
        \<and> service_url p = ''http://u:p@h:8332'' \<and> aiohttp_client_session p = Some 0
        \<and> timeout p = 30 \<and> service_name p = Some ''wallet.getbalance'')
   \<and> attribute_access [''__class__'', ''__dict__'', ''__doc__'', ''__module__'']
       (init ''http://u:p@h:8332'' (Some ''wallet'') 30 (Some 0)) ''__len__'' = Inl AttributeError
   \<and> attribute_access [''__class__'', ''__dict__'', ''__doc__'', ''__module__'']
       (init ''http://u:p@h:8332'' (Some ''wallet'') 30 (Some 0)) ''__class__''
       = Inr (Found ''__class__'')
   \<and> (\<exists>p. access_chain [''__class__'', ''__dict__'', ''__doc__'', ''__module__'']
            (init ''http://u:p@h:8332'' None 30 None) [''a'', ''b'', ''c''] = Inr (Derived p)
        \<and> service_name p = Some ''a.b.c'')"
proof -
  let ?inh = "[''__class__'', ''__dict__'', ''__doc__'', ''__module__'']"
  let ?self = "init ''http://u:p@h:8332'' (Some ''wallet'') 30 (Some 0)"
  note t = attribute_access_dispatch [where inherited = ?inh and self = ?self
      and ns = "[''a'', ''b'', ''c'']" and url = "''http://u:p@h:8332''" and t = 30 and c = None]
  have "\<exists>p. attribute_access ?inh ?self ''getbalance'' = Inr (Derived p)
        \<and> service_url p = ''http://u:p@h:8332'' \<and> aiohttp_client_session p = Some 0
        \<and> timeout p = 30 \<and> service_name p = Some ''wallet.getbalance''"
    using t [where name = "''getbalance''", THEN conjunct1] lookup_examples(1) dunder_examples(1)
    by (simp add: init_def)
  moreover have "attribute_access ?inh ?self ''__len__'' = Inl AttributeError"
    using t [where name = "''__len__''", THEN conjunct2, THEN conjunct1]
      lookup_examples(2) dunder_examples(2)
    by simp
  moreover have "attribute_access ?inh ?self ''__class__'' = Inr (Found ''__class__'')"
    using t [where name = "''__class__''", THEN conjunct2, THEN conjunct2, THEN conjunct1]
      lookup_examples(3)
    by simp
  moreover have "\<exists>p. access_chain ?inh (init ''http://u:p@h:8332'' None 30 None) [''a'', ''b'', ''c'']
        = Inr (Derived p) \<and> service_name p = Some ''a.b.c''"
    using t [where name = "''x''", THEN conjunct2, THEN conjunct2, THEN conjunct2]
      lookup_examples(4)
    by simp
  ultimately show ?thesis by (intro conjI)
qed

text \<open>
  Two names on which C6 as stated fails: \<^verbatim>\<open>batch_\<close> is not of the dunder form and the
  access gives the method of the class, not a proxy for an RPC method of that name;
  \<^verbatim>\<open>__call__\<close> starts and ends with two underscores and the access gives the method, it
  does not raise.
\<close>

theorem attribute_access_finds_members:
  "\<not> dunder ''batch_''
   \<and> attribute_access [''__class__'', ''__dict__'', ''__doc__'', ''__module__'']
       (init ''http://u:p@h:8332'' None 30 None) ''batch_'' = Inr (Found ''batch_'')
   \<and> dunder ''__call__''
   \<and> attribute_access [''__class__'', ''__dict__'', ''__doc__'', ''__module__'']
       (init ''http://u:p@h:8332'' None 30 None) ''__call__'' = Inr (Found ''__call__'')"
  by (simp add: attribute_access_def lookup_names_def instance_names_def class_names_def
      dunder_def suffix_def)
section \<open>Decoding\<close>

lemma get_response_fst:
  "fst (get_response self resp w) =
     (if json_body resp = None \<or> json_body resp = Some JNull then Inl missing_response
      else if content_type resp \<noteq> Some ''application/json''
        then Inl (non_json_response (status resp) (reason resp))
      else (case log_response (the (json_body resp)) of
              Some e \<Rightarrow> Inl e
            | None \<Rightarrow> Inr (the (json_body resp))))"
  by (auto simp: get_response_def Let_def split: prod.splits option.splits)

text \<open>
  C5, as the code has it: decoding fails with the error of code -342 and the message
  "missing HTTP response from server" when the body does not parse or parses to null; with
  code -342 and the message "non-JSON HTTP response with '<status> <reason>' from server"
  when the body parses to something else and the declared content type is not exactly
  application/json; and with no RPC error in any other case. In particular a response of
  content type text/plain fails with code -342 whatever its body.
\<close>

theorem get_response_failures:
  "(json_body resp = None \<or> json_body resp = Some JNull \<longrightarrow>
      fst (get_response self resp w) =
        Inl (JSONRPCException
              \<lparr>error = rpc_error_lit (- 342) ''missing HTTP response from server'',
               code = Some (JInt (- 342)),
               message = Some (JStr ''missing HTTP response from server'')\<rparr>))
   \<and> (json_body resp = Some j \<and> j \<noteq> JNull \<and> content_type resp \<noteq> Some ''application/json'' \<longrightarrow>
        (\<exists>x. fst (get_response self resp w) = Inl (JSONRPCException x)
           \<and> code x = Some (JInt (- 342))
           \<and> message x = Some (JStr (''non-JSON HTTP response with '' @ [CHR 0x27]
                 @ str_int (status resp) @ '' '' @ reason resp @ [CHR 0x27] @ '' from server''))))
   \<and> (json_body resp = Some j \<and> j \<noteq> JNull \<and> content_type resp = Some ''application/json'' \<longrightarrow>
        (\<forall>x. fst (get_response self resp w) \<noteq> Inl (JSONRPCException x)))
   \<and> (content_type resp = Some ''text/plain'' \<longrightarrow>
        (\<exists>x. fst (get_response self resp w) = Inl (JSONRPCException x)
           \<and> code x = Some (JInt (- 342))))"
proof (intro conjI impI)
  assume "json_body resp = None \<or> json_body resp = Some JNull"
  then show "fst (get_response self resp w) =
        Inl (JSONRPCException
              \<lparr>error = rpc_error_lit (- 342) ''missing HTTP response from server'',
               code = Some (JInt (- 342)),
               message = Some (JStr ''missing HTTP response from server'')\<rparr>)"
    by (simp add: get_response_fst missing_response_def new_JSONRPCException_lit)
next
  assume "json_body resp = Some j \<and> j \<noteq> JNull \<and> content_type resp \<noteq> Some ''application/json''"
  then show "\<exists>x. fst (get_response self resp w) = Inl (JSONRPCException x)
           \<and> code x = Some (JInt (- 342))
           \<and> message x = Some (JStr (''non-JSON HTTP response with '' @ [CHR 0x27]
                 @ str_int (status resp) @ '' '' @ reason resp @ [CHR 0x27] @ '' from server''))"
    by (simp add: get_response_fst non_json_response_def new_JSONRPCException_lit)
next
  assume a: "json_body resp = Some j \<and> j \<noteq> JNull \<and> content_type resp = Some ''application/json''"
  show "\<forall>x. fst (get_response self resp w) \<noteq> Inl (JSONRPCException x)"
  proof
    fix x
    from a log_response_not_rpc [of j x] show "fst (get_response self resp w) \<noteq> Inl (JSONRPCException x)"
      by (auto simp: get_response_fst split: option.splits)
  qed
next
  assume "content_type resp = Some ''text/plain''"
  then show "\<exists>x. fst (get_response self resp w) = Inl (JSONRPCException x)
           \<and> code x = Some (JInt (- 342))"
    by (simp add: get_response_fst missing_response_def non_json_response_def new_JSONRPCException_lit)
qed

theorem get_response_failures_witness:
  "fst (get_response (init ''http://u:p@h'' (Some ''getinfo'') 30 (Some 0))
         \<lparr>json_body = Some (JObj [(''result'', JInt 42), (''error'', JNull), (''id'', JInt 7)]),
          content_type = Some ''text/plain'', status = 200, reason = ''OK''\<rparr>
         \<lparr>id_count = 1, closed = [False], requests = []\<rparr>)
     = Inl (JSONRPCException
         \<lparr>error = rpc_error_lit (- 342)
            (''non-JSON HTTP response with '' @ [CHR 0x27] @ ''200 OK'' @ [CHR 0x27] @ '' from server''),
          code = Some (JInt (- 342)),
          message = Some (JStr (''non-JSON HTTP response with '' @ [CHR 0x27] @ ''200 OK''
                                 @ [CHR 0x27] @ '' from server''))\<rparr>)
   \<and> fst (get_response (init ''http://u:p@h'' (Some ''getinfo'') 30 (Some 0))
         \<lparr>json_body = None, content_type = Some ''application/json'', status = 200, reason = ''OK''\<rparr>
         \<lparr>id_count = 1, closed = [False], requests = []\<rparr>)
     = Inl (JSONRPCException
              \<lparr>error = rpc_error_lit (- 342) ''missing HTTP response from server'',
               code = Some (JInt (- 342)),
               message = Some (JStr ''missing HTTP response from server'')\<rparr>)"
  using get_response_failures [of
          "\<lparr>json_body = Some (JObj [(''result'', JInt 42), (''error'', JNull), (''id'', JInt 7)]),
            content_type = Some ''text/plain'', status = 200, reason = ''OK''\<rparr>"
          "init ''http://u:p@h'' (Some ''getinfo'') 30 (Some 0)"
          "\<lparr>id_count = 1, closed = [False], requests = []\<rparr>"
          "JObj [(''result'', JInt 42), (''error'', JNull), (''id'', JInt 7)]"]
        get_response_failures [of
          "\<lparr>json_body = None, content_type = Some ''application/json'', status = 200, reason = ''OK''\<rparr>"
          "init ''http://u:p@h'' (Some ''getinfo'') 30 (Some 0)"
          "\<lparr>id_count = 1, closed = [False], requests = []\<rparr>" JNull]
  by (auto simp: get_response_fst non_json_response_def new_JSONRPCException_lit str_int_def)

text \<open>
  The body \<^verbatim>\<open>null\<close> parses, and the content type is right, yet decoding fails with
  code -342: the two cases of C5 are not the only ones.
\<close>

theorem get_response_null_body:
  "json_body \<lparr>json_body = Some JNull, content_type = Some ''application/json'',
              status = 200, reason = ''OK''\<rparr> \<noteq> None
   \<and> content_type \<lparr>json_body = Some JNull, content_type = Some ''application/json'',
              status = 200, reason = ''OK''\<rparr> = Some ''application/json''
   \<and> fst (get_response (init ''http://u:p@h'' (Some ''getinfo'') 30 (Some 0))
         \<lparr>json_body = Some JNull, content_type = Some ''application/json'',
          status = 200, reason = ''OK''\<rparr>
         \<lparr>id_count = 1, closed = [False], requests = []\<rparr>)
     = Inl (JSONRPCException
              \<lparr>error = rpc_error_lit (- 342) ''missing HTTP response from server'',
               code = Some (JInt (- 342)),
               message = Some (JStr ''missing HTTP response from server'')\<rparr>)"
  by (simp add: get_response_fst missing_response_def new_JSONRPCException_lit)

section \<open>The outcome of a single call\<close>

lemma key_in_dom: "k \<in> fst ` set kvs \<longleftrightarrow> map_of kvs k \<noteq> None"
  by (simp add: map_of_eq_None_iff)

lemma call_fst:
  "call_response self args r w = (Inr response, self', w') \<Longrightarrow>
   fst (call self args r w) = call_result response"
  by (simp add: call_def)

lemma call_result_error:
  "map_of kvs ''error'' = Some (JObj e) \<Longrightarrow>
   call_result (JObj kvs) =
     Inl (JSONRPCException \<lparr>error = JObj e, code = map_of e ''code'', message = map_of e ''message''\<rparr>)"
  by (simp add: call_result_def new_JSONRPCException_obj)

lemma call_result_value:
  "map_of kvs ''error'' = None \<or> map_of kvs ''error'' = Some JNull \<Longrightarrow>
   map_of kvs ''result'' = Some v \<Longrightarrow> call_result (JObj kvs) = Inr v"
  by (auto simp: call_result_def key_in_dom)

lemma call_result_missing:
  "map_of kvs ''error'' = None \<or> map_of kvs ''error'' = Some JNull \<Longrightarrow>
   map_of kvs ''result'' = None \<Longrightarrow> call_result (JObj kvs) = Inl missing_result"
  by (auto simp: call_result_def key_in_dom)

text \<open>
  What the end of \<^verbatim>\<open>__call__\<close> makes of an envelope that the decoder returned: an error
  member that is an object gives the RPC error carrying that object, its code and its
  message; otherwise a result member is returned; otherwise the error of code -343 is
  raised.
\<close>

lemma call_outcome:
  assumes "call_response self args r w = (Inr (JObj kvs), self', w')"
  shows "(\<forall>e. map_of kvs ''error'' = Some (JObj e) \<longrightarrow>
            fst (call self args r w) =
              Inl (JSONRPCException
                    \<lparr>error = JObj e, code = map_of e ''code'', message = map_of e ''message''\<rparr>))
       \<and> (map_of kvs ''error'' = None \<or> map_of kvs ''error'' = Some JNull \<longrightarrow>
            (\<forall>v. map_of kvs ''result'' = Some v \<longrightarrow> fst (call self args r w) = Inr v)
          \<and> (map_of kvs ''result'' = None \<longrightarrow>
               fst (call self args r w) =
                 Inl (JSONRPCException
                       \<lparr>error = rpc_error_lit (- 343) ''missing JSON-RPC result'',
                        code = Some (JInt (- 343)),
                        message = Some (JStr ''missing JSON-RPC result'')\<rparr>)))"
  using call_fst [OF assms] call_result_error [of kvs] call_result_value [of kvs]
        call_result_missing [of kvs]
  by (simp add: missing_result_def new_JSONRPCException_lit)

text \<open>Unfolding a call on a concrete response.\<close>

lemmas call_eval =
  call_response_def get_shared_client_def request_def get_response_def close_if_owned_def
  close_session_def log_response_def envelope_def init_def Let_def

lemma call_response_ok_example:
  "call_response (init ''http://u:p@h'' (Some ''getinfo'') 30 (Some 0)) []
     (Reply \<lparr>json_body = Some (JObj [(''result'', JInt 42), (''error'', JNull), (''id'', JInt 7)]),
             content_type = Some ''application/json'', status = 200, reason = ''OK''\<rparr>)
     \<lparr>id_count = 6, closed = [False], requests = []\<rparr>
   = (Inr (JObj [(''result'', JInt 42), (''error'', JNull), (''id'', JInt 7)]),
      init ''http://u:p@h'' (Some ''getinfo'') 30 (Some 0),
      \<lparr>id_count = 7, closed = [False],
       requests = [(0, envelope (Some ''getinfo'') [] 7)]\<rparr>)"
  by (simp add: call_eval)

lemma call_response_error_example:
  "call_response (init ''http://u:p@h'' (Some ''getinfo'') 30 (Some 0)) []
     (Reply \<lparr>json_body = Some (JObj [(''error'', JObj [(''code'', JInt (- 1)), (''message'', JStr ''bad'')]),
                                     (''id'', JInt 7)]),
             content_type = Some ''application/json'', status = 200, reason = ''OK''\<rparr>)
     \<lparr>id_count = 6, closed = [False], requests = []\<rparr>
   = (Inr (JObj [(''error'', JObj [(''code'', JInt (- 1)), (''message'', JStr ''bad'')]), (''id'', JInt 7)]),
      init ''http://u:p@h'' (Some ''getinfo'') 30 (Some 0),
      \<lparr>id_count = 7, closed = [False],
       requests = [(0, envelope (Some ''getinfo'') [] 7)]\<rparr>)"
  by (simp add: call_eval)

lemma call_response_bare_example:
  "call_response (init ''http://u:p@h'' (Some ''getinfo'') 30 (Some 0)) []
     (Reply \<lparr>json_body = Some (JObj [(''id'', JInt 7)]),
             content_type = Some ''application/json'', status = 200, reason = ''OK''\<rparr>)
     \<lparr>id_count = 6, closed = [False], requests = []\<rparr>
   = (Inr (JObj [(''id'', JInt 7)]),
      init ''http://u:p@h'' (Some ''getinfo'') 30 (Some 0),
      \<lparr>id_count = 7, closed = [False],
       requests = [(0, envelope (Some ''getinfo'') [] 7)]\<rparr>)"
  by (simp add: call_eval)

lemma call_outcome_examples:
  "fst (call (init ''http://u:p@h'' (Some ''getinfo'') 30 (Some 0)) []
     (Reply \<lparr>json_body = Some (JObj [(''result'', JInt 42), (''error'', JNull), (''id'', JInt 7)]),
             content_type = Some ''application/json'', status = 200, reason = ''OK''\<rparr>)
     \<lparr>id_count = 6, closed = [False], requests = []\<rparr>) = Inr (JInt 42)
   \<and> fst (call (init ''http://u:p@h'' (Some ''getinfo'') 30 (Some 0)) []
     (Reply \<lparr>json_body = Some (JObj [(''error'', JObj [(''code'', JInt (- 1)), (''message'', JStr ''bad'')]),
                                     (''id'', JInt 7)]),
             content_type = Some ''application/json'', status = 200, reason = ''OK''\<rparr>)
     \<lparr>id_count = 6, closed = [False], requests = []\<rparr>)
     = Inl (JSONRPCException
             \<lparr>error = JObj [(''code'', JInt (- 1)), (''message'', JStr ''bad'')],
              code = Some (JInt (- 1)), message = Some (JStr ''bad'')\<rparr>)
   \<and> fst (call (init ''http://u:p@h'' (Some ''getinfo'') 30 (Some 0)) []
     (Reply \<lparr>json_body = Some (JObj [(''id'', JInt 7)]),
             content_type = Some ''application/json'', status = 200, reason = ''OK''\<rparr>)
     \<lparr>id_count = 6, closed = [False], requests = []\<rparr>)
     = Inl (JSONRPCException
             \<lparr>error = rpc_error_lit (- 343) ''missing JSON-RPC result'',
              code = Some (JInt (- 343)),
              message = Some (JStr ''missing JSON-RPC result'')\<rparr>)"
  using call_outcome [OF call_response_ok_example] call_outcome [OF call_response_error_example]
        call_outcome [OF call_response_bare_example]
  by simp

text \<open>
  C2: the claim has the call fail with the RPC error of code -343 for an envelope whose
  error is null and whose result is missing, and return the result whenever the error is
  null and a result is present. The trace line at the end of \<^verbatim>\<open>_get_response\<close> reads
  \<^verbatim>\<open>json_response["id"]\<close> and encodes \<^verbatim>\<open>json_response["result"]\<close> before the call
  looks at the envelope: for the body \<^verbatim>\<open>{"error": null, "id": 7}\<close> the call raises
  \<^verbatim>\<open>KeyError('result')\<close>, and for \<^verbatim>\<open>{"result": 1e30, "error": null, "id": 1}\<close> it raises
  \<^verbatim>\<open>InvalidOperation\<close>, where the last lines of \<^verbatim>\<open>__call__\<close> would have raised the
  error of code -343 and returned the result.
\<close>

theorem call_trace_line_raises:
  "fst (call (init ''http://u:p@h'' (Some ''getinfo'') 30 (Some 0)) []
     (Reply \<lparr>json_body = Some (JObj [(''error'', JNull), (''id'', JInt 7)]),
             content_type = Some ''application/json'', status = 200, reason = ''OK''\<rparr>)
     \<lparr>id_count = 6, closed = [False], requests = []\<rparr>) = Inl (KeyError ''result'')
   \<and> call_result (JObj [(''error'', JNull), (''id'', JInt 7)])
     = Inl (JSONRPCException
             \<lparr>error = rpc_error_lit (- 343) ''missing JSON-RPC result'',
              code = Some (JInt (- 343)),
              message = Some (JStr ''missing JSON-RPC result'')\<rparr>)
   \<and> fst (call (init ''http://u:p@h'' (Some ''getinfo'') 30 (Some 0)) []
     (Reply \<lparr>json_body = Some (JObj [(''result'', JDec (Decimal False 1 30)), (''error'', JNull),
                                     (''id'', JInt 1)]),
             content_type = Some ''application/json'', status = 200, reason = ''OK''\<rparr>)
     \<lparr>id_count = 6, closed = [False], requests = []\<rparr>) = Inl InvalidOperation
   \<and> call_result (JObj [(''result'', JDec (Decimal False 1 30)), (''error'', JNull), (''id'', JInt 1)])
     = Inr (JDec (Decimal False 1 30))"
  by (simp add: call_def call_eval call_result_def missing_result_def new_JSONRPCException_lit
        round8_def Let_def)

section \<open>The outcome of a batch call\<close>














section \<open>The descriptors of a batch call\<close>

lemma batch_build_ok:
  "\<forall>c \<in> set cs. c \<noteq> [] \<Longrightarrow>
   \<exists>entries. batch_build cs k = (Inr entries, map tl cs, k + int (length cs))
     \<and> map fst entries = map hd cs
     \<and> map (\<lambda>x. fst (snd x)) entries = map tl cs
     \<and> map (\<lambda>x. snd (snd x)) entries = [k + 1..k + int (length cs)]"
proof (induction cs arbitrary: k)
  case Nil
  then show ?case by simp
next
  case (Cons c cs)
  then obtain m params where c: "c = m # params" by (cases c) auto
  from Cons.prems have "\<forall>c \<in> set cs. c \<noteq> []" by simp
  from Cons.IH [OF this, of "k + 1"] obtain entries where
    e: "batch_build cs (k + 1) = (Inr entries, map tl cs, k + 1 + int (length cs))"
       "map fst entries = map hd cs" "map (\<lambda>x. fst (snd x)) entries = map tl cs"
       "map (\<lambda>x. snd (snd x)) entries = [k + 1 + 1..k + 1 + int (length cs)]"
    by blast
  have len: "k + int (length (c # cs)) = k + 1 + int (length cs)" by simp
  have ids: "[k + 1..k + int (length (c # cs))] = (k + 1) # [k + 1 + 1..k + 1 + int (length cs)]"
    unfolding len by (rule upto_rec1) simp
  from c e(1) have "batch_build (c # cs) k =
      (Inr ((m, params, k + 1) # entries), map tl (c # cs), k + int (length (c # cs)))"
    by simp
  moreover from c e(2) have "map fst ((m, params, k + 1) # entries) = map hd (c # cs)" by simp
  moreover from c e(3) have "map (\<lambda>x. fst (snd x)) ((m, params, k + 1) # entries) = map tl (c # cs)"
    by simp
  moreover from e(4) ids have "map (\<lambda>x. snd (snd x)) ((m, params, k + 1) # entries)
      = [k + 1..k + int (length (c # cs))]"
    by simp
  ultimately show ?case by blast
qed




section \<open>What a call does to the process\<close>

lemma get_shared_client_world:
  "get_shared_client self w = (h, self', w') \<Longrightarrow>
   id_count w' = id_count w \<and> requests w' = requests w"
  by (auto simp: get_shared_client_def split: option.splits)

lemma close_if_owned_world:
  "close_if_owned self w = (self', w') \<Longrightarrow>
   id_count w' = id_count w \<and> requests w' = requests w"
  by (auto simp: close_if_owned_def close_session_def get_shared_client_def
           split: if_splits option.splits)

lemma get_response_world:
  "get_response self resp w = (res, self', w') \<Longrightarrow>
   id_count w' = id_count w \<and> requests w' = requests w"
  by (auto simp: get_response_def Let_def split: prod.splits dest: close_if_owned_world)

lemma request_world:
  "request h body r w = (res, w') \<Longrightarrow>
   id_count w' = id_count w \<and> requests w' = requests w @ [(h, body)]"
  by (auto simp: request_def)

lemma call_response_world:
  assumes "encodable (JArr args)" and "call_response self args r w = (res, self', w')"
  shows "id_count w' = id_count w + 1
       \<and> (\<exists>h. requests w' = requests w @ [(h, envelope (service_name self) args (id_count w + 1))])"
proof -
  obtain h self1 w2 where g: "get_shared_client self (w\<lparr>id_count := id_count w + 1\<rparr>) = (h, self1, w2)"
    by (metis prod_cases3)
  obtain rq w3 where q: "request h (envelope (service_name self) args (id_count w + 1)) r w2 = (rq, w3)"
    by (metis surj_pair)
  from get_shared_client_world [OF g] request_world [OF q]
  have w3: "id_count w3 = id_count w + 1"
      "requests w3 = requests w @ [(h, envelope (service_name self) args (id_count w + 1))]"
    by simp_all
  show ?thesis
  proof (cases rq)
    case (Inl e)
    with assms g q w3 show ?thesis by (auto simp: call_response_def Let_def)
  next
    case (Inr resp)
    obtain dec self2 w4 where d: "get_response self1 resp w3 = (dec, self2, w4)"
      by (metis prod_cases3)
    obtain self3 w5 where c: "close_if_owned self2 w4 = (self3, w5)"
      by (metis surj_pair)
    from get_response_world [OF d] close_if_owned_world [OF c] w3
    have "id_count w4 = id_count w + 1" "requests w4 = requests w3"
         "id_count w5 = id_count w + 1" "requests w5 = requests w3"
      by simp_all
    with assms g q w3 Inr d c show ?thesis
      by (cases dec) (auto simp: call_response_def Let_def)
  qed
qed

lemma call_world:
  assumes "encodable (JArr args)"
  shows "id_count (snd (snd (call self args r w))) = id_count w + 1
       \<and> request_ids (snd (snd (call self args r w))) = request_ids w @ [id_count w + 1]"
proof -
  obtain res self' w' where c: "call_response self args r w = (res, self', w')"
    by (metis prod_cases3)
  from call_response_world [OF assms c] obtain h where
    "id_count w' = id_count w + 1"
    "requests w' = requests w @ [(h, envelope (service_name self) args (id_count w + 1))]"
    by blast
  moreover from c have "snd (snd (call self args r w)) = w'"
    by (cases res) (simp_all add: call_def)
  ultimately show ?thesis by (simp add: request_ids_def envelope_def)
qed

lemma encodable_entries:
  assumes "\<forall>c \<in> set cs. c \<noteq> []" and "\<forall>c \<in> set cs. encodable (JArr c)"
    and "map fst entries = map hd cs" and "map (\<lambda>x. fst (snd x)) entries = map tl cs"
  shows "encodable (JArr (map batch_entry entries))"
  using assms
proof (induction cs arbitrary: entries)
  case Nil
  then show ?case by simp
next
  case (Cons c cs)
  then obtain x xs where x: "entries = x # xs" by (cases entries) auto
  obtain m params i where t: "x = (m, params, i)" by (metis prod_cases3)
  from Cons.prems x t have c: "c = m # params" by (cases c) auto
  from Cons.prems x have "encodable (JArr (map batch_entry xs))"
    by (intro Cons.IH) auto
  moreover from Cons.prems c have "encodable (batch_entry x)"
    by (auto simp: t batch_entry_def)
  ultimately show ?case by (simp add: x)
qed

lemma body_ids_entries:
  "body_ids (JArr (map batch_entry entries)) = map (\<lambda>x. snd (snd x)) entries"
  by (induction entries) (auto simp: batch_entry_def)

lemma batch_world:
  assumes "\<forall>c \<in> set cs. c \<noteq> []" and "\<forall>c \<in> set cs. encodable (JArr c)"
  shows "id_count (snd (snd (snd (batch self cs r w)))) = id_count w + int (length cs)
       \<and> request_ids (snd (snd (snd (batch self cs r w))))
           = request_ids w @ [id_count w + 1..id_count w + int (length cs)]"
proof -
  from batch_build_ok [OF assms(1), of "id_count w"] obtain entries where
    b: "batch_build cs (id_count w) = (Inr entries, map tl cs, id_count w + int (length cs))"
       "map fst entries = map hd cs" "map (\<lambda>x. fst (snd x)) entries = map tl cs"
       "map (\<lambda>x. snd (snd x)) entries = [id_count w + 1..id_count w + int (length cs)]"
    by blast
  have enc: "encodable (JArr (map batch_entry entries))"
    using assms b(2,3) by (rule encodable_entries)
  let ?w1 = "w\<lparr>id_count := id_count w + int (length cs)\<rparr>"
  obtain h self1 w2 where g: "get_shared_client self ?w1 = (h, self1, w2)"
    by (metis prod_cases3)
  obtain rq w3 where q: "request h (JArr (map batch_entry entries)) r w2 = (rq, w3)"
    by (metis surj_pair)
  from get_shared_client_world [OF g] request_world [OF q]
  have w3: "id_count w3 = id_count w + int (length cs)"
      "requests w3 = requests w @ [(h, JArr (map batch_entry entries))]"
    by simp_all
  have "id_count (snd (snd (snd (batch self cs r w)))) = id_count w3
      \<and> requests (snd (snd (snd (batch self cs r w)))) = requests w3"
  proof (cases rq)
    case (Inl e)
    with b(1) enc g q show ?thesis by (simp add: batch_def batch_response_def)
  next
    case (Inr resp)
    obtain dec self2 w4 where d: "get_response self1 resp w3 = (dec, self2, w4)"
      by (metis prod_cases3)
    from get_response_world [OF d] have "id_count w4 = id_count w3" "requests w4 = requests w3"
      by simp_all
    with b(1) enc g q Inr d show ?thesis
      by (cases dec) (simp_all add: batch_def batch_response_def)
  qed
  with w3 b(4) show ?thesis
    by (simp add: request_ids_def body_ids_entries del: body_ids.simps)
qed

lemma invoke_world:
  assumes "well_formed i"
  shows "id_count (snd (invoke p i w)) = id_count w + int (envelopes i)
       \<and> request_ids (snd (invoke p i w))
           = request_ids w @ [id_count w + 1..id_count w + int (envelopes i)]"
proof (cases i)
  case (Single args r)
  with assms call_world [of args p r w] show ?thesis by simp
next
  case (Many cs r)
  with assms batch_world [of cs p r w] show ?thesis by simp
qed

lemma upto_append: "(0::int) \<le> a \<Longrightarrow> 0 \<le> b \<Longrightarrow> [k + 1..k + a] @ [k + a + 1..k + a + b] = [k + 1..k + a + b]"
proof (cases "a = 0")
  case True
  then show ?thesis by simp
next
  case False
  assume "0 \<le> a" "0 \<le> b"
  with False have "k + 1 \<le> k + a" "k + a \<le> k + a + b" by simp_all
  then have "[k + 1..k + a + b] = [k + 1..k + a] @ [k + a + 1..k + a + b]"
    by (rule upto_split2)
  then show ?thesis by simp
qed

lemma run_world:
  "\<forall>x \<in> set ops. well_formed (snd x) \<Longrightarrow>
   id_count (run w ops) = id_count w + int (sum_list (map (\<lambda>x. envelopes (snd x)) ops))
   \<and> request_ids (run w ops)
       = request_ids w @ [id_count w + 1..id_count w + int (sum_list (map (\<lambda>x. envelopes (snd x)) ops))]"
proof (induction ops arbitrary: w)
  case Nil
  then show ?case by simp
next
  case (Cons x ops)
  obtain p i where x: "x = (p, i)" by (metis surj_pair)
  let ?w = "snd (invoke p i w)"
  let ?n = "int (sum_list (map (\<lambda>x. envelopes (snd x)) ops))"
  from Cons.prems x have wf: "well_formed i" "\<forall>x \<in> set ops. well_formed (snd x)" by simp_all
  note s = invoke_world [OF wf(1), of p w]
  note ih = Cons.IH [OF wf(2), of ?w]
  have "[id_count w + 1..id_count w + int (envelopes i)]
          @ [id_count w + int (envelopes i) + 1..id_count w + int (envelopes i) + ?n]
        = [id_count w + 1..id_count w + int (envelopes i) + ?n]"
    by (rule upto_append) simp_all
  with s ih x show ?case by (simp add: add.assoc)
qed

lemma batch_build_any:
  "batch_build cs k = (res, cs', k') \<Longrightarrow>
   k \<le> k' \<and> (\<forall>entries. res = Inr entries \<longrightarrow> map (\<lambda>x. snd (snd x)) entries = [k + 1..k'])"
proof (induction cs k arbitrary: res cs' k' rule: batch_build.induct)
  case (1 c)
  then show ?case by auto
next
  case (2 rest c)
  then show ?case by auto
next
  case (3 m params rest c)
  obtain res1 rest1 k1 where b: "batch_build rest (c + 1) = (res1, rest1, k1)"
    by (metis prod_cases3)
  from "3.IH" [OF b] have ih: "c + 1 \<le> k1"
      "\<forall>entries. res1 = Inr entries \<longrightarrow> map (\<lambda>x. snd (snd x)) entries = [c + 1 + 1..k1]"
    by simp_all
  show ?case
  proof (cases res1)
    case (Inl e)
    with b "3.prems" ih(1) show ?thesis by auto
  next
    case (Inr entries1)
    with ih(2) have ids: "map (\<lambda>x. snd (snd x)) entries1 = [c + 1 + 1..k1]" by simp
    from ih(1) have "[c + 1..k1] = (c + 1) # [c + 1 + 1..k1]" by (rule upto_rec1)
    with Inr b "3.prems" ih(1) ids show ?thesis by auto
  qed
qed

lemma call_counts:
  "id_count (snd (snd (call self args r w))) = id_count w + 1"
proof (cases "encodable (JArr args)")
  case True
  then show ?thesis using call_world [of args self r w] by simp
next
  case False
  then show ?thesis by (simp add: call_def call_response_def Let_def)
qed

lemma call_ids:
  "request_ids (snd (snd (call self args r w))) = request_ids w
   \<or> request_ids (snd (snd (call self args r w))) = request_ids w @ [id_count w + 1]"
proof (cases "encodable (JArr args)")
  case True
  then show ?thesis using call_world [of args self r w] by simp
next
  case False
  then show ?thesis by (simp add: call_def call_response_def Let_def request_ids_def)
qed

lemma batch_ids:
  "id_count w \<le> id_count (snd (snd (snd (batch self cs r w))))
   \<and> (request_ids (snd (snd (snd (batch self cs r w)))) = request_ids w
      \<or> request_ids (snd (snd (snd (batch self cs r w))))
          = request_ids w @ [id_count w + 1..id_count (snd (snd (snd (batch self cs r w))))])"
proof -
  obtain res cs' k' where b: "batch_build cs (id_count w) = (res, cs', k')"
    by (metis prod_cases3)
  note any = batch_build_any [OF b]
  show ?thesis
  proof (cases res)
    case (Inl e)
    with b any show ?thesis by (simp add: batch_def batch_response_def request_ids_def)
  next
    case entries: (Inr entries)
    with any have ids: "map (\<lambda>x. snd (snd x)) entries = [id_count w + 1..k']" by simp
    show ?thesis
    proof (cases "encodable (JArr (map batch_entry entries))")
      case False
      with b entries any show ?thesis by (simp add: batch_def batch_response_def request_ids_def)
    next
      case True
      let ?w1 = "w\<lparr>id_count := k'\<rparr>"
      obtain h self1 w2 where g: "get_shared_client self ?w1 = (h, self1, w2)"
        by (metis prod_cases3)
      obtain rq w3 where q: "request h (JArr (map batch_entry entries)) r w2 = (rq, w3)"
        by (metis surj_pair)
      from get_shared_client_world [OF g] request_world [OF q]
      have w3: "id_count w3 = k'"
          "requests w3 = requests w @ [(h, JArr (map batch_entry entries))]"
        by simp_all
      have "id_count (snd (snd (snd (batch self cs r w)))) = id_count w3
          \<and> requests (snd (snd (snd (batch self cs r w)))) = requests w3"
      proof (cases rq)
        case (Inl e)
        with b entries True g q show ?thesis by (simp add: batch_def batch_response_def)
      next
        case (Inr resp)
        obtain dec self2 w4 where d: "get_response self1 resp w3 = (dec, self2, w4)"
          by (metis prod_cases3)
        from get_response_world [OF d] have "id_count w4 = id_count w3" "requests w4 = requests w3"
          by simp_all
        with b entries True g q Inr d show ?thesis
          by (cases dec) (simp_all add: batch_def batch_response_def)
      qed
      with w3 ids any show ?thesis
        by (simp add: request_ids_def body_ids_entries del: body_ids.simps)
    qed
  qed
qed

lemma invoke_ids:
  "id_count w \<le> id_count (snd (invoke p i w))
   \<and> (\<exists>ids. request_ids (snd (invoke p i w)) = request_ids w @ ids
          \<and> sorted_wrt (<) ids
          \<and> (\<forall>x \<in> set ids. id_count w < x \<and> x \<le> id_count (snd (invoke p i w))))"
proof (cases i)
  case (Single args r)
  from call_ids [of self args r w for self]
  have "request_ids (snd (snd (call p args r w))) = request_ids w @ []
      \<or> request_ids (snd (snd (call p args r w))) = request_ids w @ [id_count w + 1]"
    by simp
  then have "\<exists>ids. request_ids (snd (snd (call p args r w))) = request_ids w @ ids
      \<and> sorted_wrt (<) ids \<and> (\<forall>x \<in> set ids. id_count w < x \<and> x \<le> id_count w + 1)"
    by (elim disjE) (rule exI [of _ "[]"], simp, rule exI [of _ "[id_count w + 1]"], simp)
  with Single call_counts [of p args r w] show ?thesis by simp
next
  case (Many cs r)
  let ?w = "snd (snd (snd (batch p cs r w)))"
  from batch_ids [of w p cs r]
  have le: "id_count w \<le> id_count ?w"
    and "request_ids ?w = request_ids w @ []
       \<or> request_ids ?w = request_ids w @ [id_count w + 1..id_count ?w]"
    by simp_all
  then have "\<exists>ids. request_ids ?w = request_ids w @ ids
      \<and> sorted_wrt (<) ids \<and> (\<forall>x \<in> set ids. id_count w < x \<and> x \<le> id_count ?w)"
    by (elim disjE) (rule exI [of _ "[]"], simp,
          rule exI [of _ "[id_count w + 1..id_count ?w]"], simp)
  with Many le show ?thesis by simp
qed

lemma run_ids:
  "id_count w \<le> id_count (run w ops)
   \<and> (\<exists>ids. request_ids (run w ops) = request_ids w @ ids
          \<and> sorted_wrt (<) ids
          \<and> (\<forall>x \<in> set ids. id_count w < x \<and> x \<le> id_count (run w ops)))"
proof (induction ops arbitrary: w)
  case Nil
  show ?case by simp
next
  case (Cons x ops)
  obtain p i where x: "x = (p, i)" by (metis surj_pair)
  let ?w1 = "snd (invoke p i w)"
  let ?w2 = "run ?w1 ops"
  from invoke_ids [of w p i] obtain ids1 where
    1: "id_count w \<le> id_count ?w1" "request_ids ?w1 = request_ids w @ ids1"
       "sorted_wrt (<) ids1" "\<forall>x \<in> set ids1. id_count w < x \<and> x \<le> id_count ?w1"
    by blast
  from Cons.IH [of ?w1] obtain ids2 where
    2: "id_count ?w1 \<le> id_count ?w2" "request_ids ?w2 = request_ids ?w1 @ ids2"
       "sorted_wrt (<) ids2" "\<forall>x \<in> set ids2. id_count ?w1 < x \<and> x \<le> id_count ?w2"
    by blast
  have "sorted_wrt (<) (ids1 @ ids2)"
    using 1(3,4) 2(3,4) by (fastforce simp: sorted_wrt_append)
  moreover have "\<forall>x \<in> set (ids1 @ ids2). id_count w < x \<and> x \<le> id_count ?w2"
    using 1(1,4) 2(1,4) by fastforce
  moreover have "request_ids ?w2 = request_ids w @ (ids1 @ ids2)"
    using 1(2) 2(2) by simp
  moreover have "id_count w \<le> id_count ?w2" using 1(1) 2(1) by simp
  ultimately show ?case unfolding x by (simp del: append_assoc)
qed


text \<open>
  C4, as the code has it: the counter is one for the whole process, and every call advances
  it, also a single call that fails before its envelope is built. Whatever proxies a
  sequence of calls goes through, single calls and batch calls alike, and whatever each
  call comes to, the ids in the envelopes handed to the transport are strictly increasing,
  each above the starting value of the counter and at most its final value. When the
  envelopes of every call can be built, they are consecutive as well: starting from a
  counter value \<open>c\<close>, \<open>N\<close> envelopes carry \<open>c + 1\<close>, ..., \<open>c + N\<close> in this order.
\<close>

theorem request_ids_consecutive:
  assumes "requests w = []"
  shows "id_count (snd (snd (call self args r w))) = id_count w + 1
       \<and> sorted_wrt (<) (request_ids (run w ops))
       \<and> (\<forall>x \<in> set (request_ids (run w ops)). id_count w < x \<and> x \<le> id_count (run w ops))
       \<and> ((\<forall>x \<in> set ops. well_formed (snd x)) \<longrightarrow>
            request_ids (run w ops)
              = [id_count w + 1..id_count w + int (sum_list (map (\<lambda>x. envelopes (snd x)) ops))]
          \<and> id_count (run w ops) = id_count w + int (sum_list (map (\<lambda>x. envelopes (snd x)) ops)))"
proof (intro conjI impI)
  show "id_count (snd (snd (call self args r w))) = id_count w + 1" by (rule call_counts)
next
  from assms have e: "request_ids w = []" by (simp add: request_ids_def)
  from run_ids [of w ops] e
  show "sorted_wrt (<) (request_ids (run w ops))"
    and "\<forall>x \<in> set (request_ids (run w ops)). id_count w < x \<and> x \<le> id_count (run w ops)"
    by auto
next
  assume wf: "\<forall>x \<in> set ops. well_formed (snd x)"
  from assms have e: "request_ids w = []" by (simp add: request_ids_def)
  from run_world [OF wf, of w] e
  show "request_ids (run w ops)
          = [id_count w + 1..id_count w + int (sum_list (map (\<lambda>x. envelopes (snd x)) ops))]"
    and "id_count (run w ops) = id_count w + int (sum_list (map (\<lambda>x. envelopes (snd x)) ops))"
    by simp_all
qed

theorem request_ids_consecutive_witness:
  "request_ids (run \<lparr>id_count = 5, closed = [False], requests = []\<rparr>
     [(init ''http://u:p@h'' (Some ''getinfo'') 30 None, Single [] Timeout),
      (init ''http://u:p@h'' None 30 (Some 0),
       Many [[JStr ''getinfo''], [JStr ''getblock'', JStr ''abc'']] (Refused ''refused'')),
      (init ''http://u:p@other'' (Some ''wallet.getbalance'') 5 (Some 0),
       Single [JInt 1]
         (Reply \<lparr>json_body = None, content_type = None, status = 500, reason = ''oops''\<rparr>))])
   = [6, 7, 8, 9]"
proof -
  let ?w = "\<lparr>id_count = 5, closed = [False], requests = []\<rparr>"
  let ?ops = "[(init ''http://u:p@h'' (Some ''getinfo'') 30 None, Single [] Timeout),
      (init ''http://u:p@h'' None 30 (Some 0),
       Many [[JStr ''getinfo''], [JStr ''getblock'', JStr ''abc'']] (Refused ''refused'')),
      (init ''http://u:p@other'' (Some ''wallet.getbalance'') 5 (Some 0),
       Single [JInt 1]
         (Reply \<lparr>json_body = None, content_type = None, status = 500, reason = ''oops''\<rparr>))]"
  have r: "requests ?w = []" by simp
  have wf: "\<forall>x \<in> set ?ops. well_formed (snd x)" by simp
  note t = request_ids_consecutive [OF r, of "init ''http://u:p@h'' None 30 None" "[]" Timeout ?ops,
      THEN conjunct2, THEN conjunct2, THEN conjunct2, THEN mp, OF wf, THEN conjunct1]
  from t show ?thesis by simp
qed

text \<open>
  Three single calls of which the second cannot encode its argument, the decimal 1E+30:
  the second call takes the id 2 and builds no envelope, so the envelopes carry 1 and 3.
\<close>

theorem request_ids_gap:
  "request_ids (run \<lparr>id_count = 0, closed = [False], requests = []\<rparr>
     [(init ''http://u:p@h'' (Some ''getinfo'') 30 (Some 0), Single [] Timeout),
      (init ''http://u:p@h'' (Some ''sendtoaddress'') 30 (Some 0),
       Single [JStr ''addr'', JDec (Decimal False 1 30)] Timeout),
      (init ''http://u:p@h'' (Some ''getinfo'') 30 (Some 0), Single [] Timeout)])
   = [1, 3]"
  by (simp add: request_ids_def call_def call_eval round8_def)

section \<open>The proxy across calls\<close>

lemma get_shared_client_proxy:
  "get_shared_client self w = (h, self', w') \<Longrightarrow>
   service_url self' = service_url self \<and> service_name self' = service_name self
   \<and> timeout self' = timeout self
   \<and> (aiohttp_client_session self \<noteq> None \<longrightarrow> self' = self \<and> w' = w)
   \<and> aiohttp_client_session self' = Some h"
  by (auto simp: get_shared_client_def split: option.splits)

lemma close_if_owned_proxy:
  "close_if_owned self w = (self', w') \<Longrightarrow>
   service_url self' = service_url self \<and> service_name self' = service_name self
   \<and> timeout self' = timeout self
   \<and> (aiohttp_client_session self \<noteq> None \<longrightarrow> self' = self)"
  by (auto simp: close_if_owned_def get_shared_client_def split: if_splits option.splits)

lemma get_response_proxy:
  "get_response self resp w = (res, self', w') \<Longrightarrow>
   service_url self' = service_url self \<and> service_name self' = service_name self
   \<and> timeout self' = timeout self
   \<and> (aiohttp_client_session self \<noteq> None \<longrightarrow> self' = self)"
  by (auto simp: get_response_def Let_def split: prod.splits dest: close_if_owned_proxy)

lemma call_response_proxy:
  assumes "call_response self args r w = (res, self', w')"
  shows "service_url self' = service_url self \<and> service_name self' = service_name self
       \<and> timeout self' = timeout self
       \<and> (aiohttp_client_session self \<noteq> None \<longrightarrow> self' = self)"
proof (cases "encodable (JArr args)")
  case False
  with assms show ?thesis by (simp add: call_response_def Let_def)
next
  case True
  obtain h self1 w2 where g: "get_shared_client self (w\<lparr>id_count := id_count w + 1\<rparr>) = (h, self1, w2)"
    by (metis prod_cases3)
  obtain rq w3 where q: "request h (envelope (service_name self) args (id_count w + 1)) r w2 = (rq, w3)"
    by (metis surj_pair)
  note p1 = get_shared_client_proxy [OF g]
  show ?thesis
  proof (cases rq)
    case (Inl e)
    with assms True g q p1 show ?thesis by (auto simp: call_response_def Let_def)
  next
    case (Inr resp)
    obtain dec self2 w4 where d: "get_response self1 resp w3 = (dec, self2, w4)"
      by (metis prod_cases3)
    obtain self3 w5 where c: "close_if_owned self2 w4 = (self3, w5)"
      by (metis surj_pair)
    note p2 = get_response_proxy [OF d]
    note p3 = close_if_owned_proxy [OF c]
    from assms True g q Inr d c have "self' = self2 \<or> self' = self3"
      by (cases dec) (auto simp: call_response_def Let_def)
    with p1 p2 p3 show ?thesis by auto
  qed
qed

lemma call_proxy:
  "service_url (fst (snd (call self args r w))) = service_url self
   \<and> service_name (fst (snd (call self args r w))) = service_name self
   \<and> timeout (fst (snd (call self args r w))) = timeout self
   \<and> (aiohttp_client_session self \<noteq> None \<longrightarrow> fst (snd (call self args r w)) = self)"
proof -
  obtain res self' w' where c: "call_response self args r w = (res, self', w')"
    by (metis prod_cases3)
  then have "fst (snd (call self args r w)) = self'"
    by (cases res) (simp_all add: call_def)
  with call_response_proxy [OF c] show ?thesis by simp
qed

lemma batch_response_proxy:
  assumes "batch_response self cs r w = (res, cs', self', w')"
  shows "service_url self' = service_url self \<and> service_name self' = service_name self
       \<and> timeout self' = timeout self
       \<and> (aiohttp_client_session self \<noteq> None \<longrightarrow> self' = self)"
proof -
  obtain b cs1 k where b: "batch_build cs (id_count w) = (b, cs1, k)"
    by (metis prod_cases3)
  show ?thesis
  proof (cases b)
    case (Inl e)
    with assms b show ?thesis by (simp add: batch_response_def)
  next
    case entries: (Inr entries)
    show ?thesis
    proof (cases "encodable (JArr (map batch_entry entries))")
      case False
      with assms b entries show ?thesis by (simp add: batch_response_def)
    next
      case True
      obtain h self1 w2 where g: "get_shared_client self (w\<lparr>id_count := k\<rparr>) = (h, self1, w2)"
        by (metis prod_cases3)
      obtain rq w3 where q: "request h (JArr (map batch_entry entries)) r w2 = (rq, w3)"
        by (metis surj_pair)
      note p1 = get_shared_client_proxy [OF g]
      show ?thesis
      proof (cases rq)
        case (Inl e)
        with assms b entries True g q p1 show ?thesis by (auto simp: batch_response_def)
      next
        case (Inr resp)
        obtain dec self2 w4 where d: "get_response self1 resp w3 = (dec, self2, w4)"
          by (metis prod_cases3)
        note p2 = get_response_proxy [OF d]
        from assms b entries True g q Inr d have "self' = self2"
          by (auto simp: batch_response_def)
        with p1 p2 show ?thesis by auto
      qed
    qed
  qed
qed

lemma batch_proxy:
  "service_url (fst (snd (snd (batch self cs r w)))) = service_url self
   \<and> service_name (fst (snd (snd (batch self cs r w)))) = service_name self
   \<and> timeout (fst (snd (snd (batch self cs r w)))) = timeout self
   \<and> (aiohttp_client_session self \<noteq> None \<longrightarrow> fst (snd (snd (batch self cs r w))) = self)"
proof -
  obtain res cs' self' w' where c: "batch_response self cs r w = (res, cs', self', w')"
    by (metis prod_cases4)
  then have "fst (snd (snd (batch self cs r w))) = self'"
    by (cases res) (simp_all add: batch_def)
  with batch_response_proxy [OF c] show ?thesis by simp
qed

lemma call_stores_session:
  assumes "aiohttp_client_session self = None" and "encodable (JArr args)"
  shows "fst (snd (call self args r w))
           = self\<lparr>aiohttp_client_session := Some (length (closed w)), aiohttp_must_close := True\<rparr>"
proof -
  have "fst (snd (call_response self args r w))
          = self\<lparr>aiohttp_client_session := Some (length (closed w)), aiohttp_must_close := True\<rparr>"
    using assms
    by (auto simp: call_response_def Let_def get_shared_client_def request_def
          close_if_owned_def close_session_def get_response_def
          split: prod.splits sum.splits reply.splits)
  then show ?thesis
    by (cases "call_response self args r w") (auto simp: call_def split: sum.splits)
qed

lemma batch_stores_session:
  assumes "aiohttp_client_session self = None"
    and "\<forall>c \<in> set cs. c \<noteq> []" and "\<forall>c \<in> set cs. encodable (JArr c)"
  shows "fst (snd (snd (batch self cs r w)))
           = self\<lparr>aiohttp_client_session := Some (length (closed w)), aiohttp_must_close := True\<rparr>"
proof -
  from batch_build_ok [OF assms(2), of "id_count w"] obtain entries where
    b: "batch_build cs (id_count w) = (Inr entries, map tl cs, id_count w + int (length cs))"
       "map fst entries = map hd cs" "map (\<lambda>x. fst (snd x)) entries = map tl cs"
    by blast
  have enc: "encodable (JArr (map batch_entry entries))"
    using assms(2,3) b(2,3) by (rule encodable_entries)
  have "fst (snd (snd (batch_response self cs r w)))
          = self\<lparr>aiohttp_client_session := Some (length (closed w)), aiohttp_must_close := True\<rparr>"
    using assms(1) b(1) enc
    by (auto simp: batch_response_def Let_def get_shared_client_def request_def
          close_if_owned_def close_session_def get_response_def
          split: prod.splits sum.splits reply.splits)
  then show ?thesis
    by (cases "batch_response self cs r w") (auto simp: batch_def split: sum.splits)
qed

lemma getattr_new_instance:
  assumes "getattr self name = Inr p"
  shows "p \<noteq> self \<and> service_url p = service_url self \<and> timeout p = timeout self
       \<and> aiohttp_client_session p = aiohttp_client_session self"
proof -
  from assms have p: "p = init (service_url self)
        (Some (case service_name self of None \<Rightarrow> name | Some pre \<Rightarrow> pre @ ''.'' @ name))
        (timeout self) (aiohttp_client_session self)"
    by (auto simp: getattr_def Let_def split: if_splits)
  have "service_name p \<noteq> service_name self"
  proof (cases "service_name self")
    case None
    with p show ?thesis by (simp add: init_def)
  next
    case (Some pre)
    have "pre @ ''.'' @ name \<noteq> pre" by simp
    with Some p show ?thesis by (simp add: init_def)
  qed
  then have "p \<noteq> self" by auto
  with p show ?thesis by (simp add: init_def)
qed

text \<open>
  C9, as the code has it: a single call and a batch call leave the endpoint, the method
  name and the timeout of the proxy as they were, and leave the whole proxy as it was when
  it already holds a connection; a proxy without a connection, once its envelopes are
  built, stores the handle of the connection it creates and marks it as its own; attribute
  access returns a new instance, different from the proxy it is applied to, with the same
  endpoint, timeout and connection handle.
\<close>

theorem proxy_fields_kept:
  "service_url (fst (snd (call self args r w))) = service_url self
   \<and> service_name (fst (snd (call self args r w))) = service_name self
   \<and> timeout (fst (snd (call self args r w))) = timeout self
   \<and> (aiohttp_client_session self \<noteq> None \<longrightarrow> fst (snd (call self args r w)) = self)
   \<and> service_url (fst (snd (snd (batch self cs r w)))) = service_url self
   \<and> service_name (fst (snd (snd (batch self cs r w)))) = service_name self
   \<and> timeout (fst (snd (snd (batch self cs r w)))) = timeout self
   \<and> (aiohttp_client_session self \<noteq> None \<longrightarrow> fst (snd (snd (batch self cs r w))) = self)
   \<and> (aiohttp_client_session self = None \<and> encodable (JArr args) \<longrightarrow>
        aiohttp_client_session (fst (snd (call self args r w))) = Some (length (closed w))
      \<and> aiohttp_must_close (fst (snd (call self args r w))))
   \<and> (aiohttp_client_session self = None
        \<and> (\<forall>c \<in> set cs. c \<noteq> []) \<and> (\<forall>c \<in> set cs. encodable (JArr c)) \<longrightarrow>
        aiohttp_client_session (fst (snd (snd (batch self cs r w)))) = Some (length (closed w))
      \<and> aiohttp_must_close (fst (snd (snd (batch self cs r w)))))
   \<and> (\<forall>p. getattr self name = Inr p \<longrightarrow>
        p \<noteq> self \<and> service_url p = service_url self \<and> timeout p = timeout self
      \<and> aiohttp_client_session p = aiohttp_client_session self)"
proof -
  have a: "aiohttp_client_session self = None \<and> encodable (JArr args) \<longrightarrow>
        aiohttp_client_session (fst (snd (call self args r w))) = Some (length (closed w))
      \<and> aiohttp_must_close (fst (snd (call self args r w)))"
    using call_stores_session [of self args r w] by simp
  have b: "aiohttp_client_session self = None
        \<and> (\<forall>c \<in> set cs. c \<noteq> []) \<and> (\<forall>c \<in> set cs. encodable (JArr c)) \<longrightarrow>
        aiohttp_client_session (fst (snd (snd (batch self cs r w)))) = Some (length (closed w))
      \<and> aiohttp_must_close (fst (snd (snd (batch self cs r w))))"
    using batch_stores_session [of self cs r w] by simp
  have c: "\<forall>p. getattr self name = Inr p \<longrightarrow>
        p \<noteq> self \<and> service_url p = service_url self \<and> timeout p = timeout self
      \<and> aiohttp_client_session p = aiohttp_client_session self"
    using getattr_new_instance [of self name] by blast
  note d = call_proxy [of self args r w]
  note e = batch_proxy [of self cs r w]
  from d e a b c show ?thesis by (intro conjI) (elim conjE, assumption)+
qed

theorem proxy_fields_kept_witness:
  "fst (snd (call (init ''http://u:p@h'' (Some ''getinfo'') 30 (Some 0)) [] Timeout
       \<lparr>id_count = 0, closed = [False], requests = []\<rparr>))
     = init ''http://u:p@h'' (Some ''getinfo'') 30 (Some 0)
   \<and> fst (snd (snd (batch (init ''http://u:p@h'' (Some ''getinfo'') 30 (Some 0))
       [[JStr ''getinfo'']] Timeout \<lparr>id_count = 0, closed = [False], requests = []\<rparr>)))
     = init ''http://u:p@h'' (Some ''getinfo'') 30 (Some 0)
   \<and> aiohttp_client_session
       (fst (snd (call (init ''http://u:p@h'' None 30 None) [] Timeout
          \<lparr>id_count = 0, closed = [False], requests = []\<rparr>))) = Some 1
   \<and> aiohttp_client_session
       (fst (snd (snd (batch (init ''http://u:p@h'' None 30 None) [[JStr ''getinfo'']] Timeout
          \<lparr>id_count = 0, closed = [False], requests = []\<rparr>)))) = Some 1
   \<and> getattr (init ''http://u:p@h'' None 30 None) ''getinfo''
       \<noteq> Inr (init ''http://u:p@h'' None 30 None)"
proof -
  note a = proxy_fields_kept [of "init ''http://u:p@h'' (Some ''getinfo'') 30 (Some 0)" "[]" Timeout
          "\<lparr>id_count = 0, closed = [False], requests = []\<rparr>" "[[JStr ''getinfo'']]" "''getinfo''"]
  note b = proxy_fields_kept [of "init ''http://u:p@h'' None 30 None" "[]" Timeout
          "\<lparr>id_count = 0, closed = [False], requests = []\<rparr>" "[[JStr ''getinfo'']]" "''getinfo''"]
  have s: "aiohttp_client_session (init ''http://u:p@h'' (Some ''getinfo'') 30 (Some 0)) \<noteq> None"
      "aiohttp_client_session (init ''http://u:p@h'' None 30 None) = None"
      "encodable (JArr [])" "\<forall>c \<in> set [[JStr ''getinfo'']]. c \<noteq> []"
      "\<forall>c \<in> set [[JStr ''getinfo'']]. encodable (JArr c)"
    by (simp_all add: init_def)
  from a s(1) have 1: "fst (snd (call (init ''http://u:p@h'' (Some ''getinfo'') 30 (Some 0)) [] Timeout
       \<lparr>id_count = 0, closed = [False], requests = []\<rparr>))
     = init ''http://u:p@h'' (Some ''getinfo'') 30 (Some 0)"
     and 2: "fst (snd (snd (batch (init ''http://u:p@h'' (Some ''getinfo'') 30 (Some 0))
       [[JStr ''getinfo'']] Timeout \<lparr>id_count = 0, closed = [False], requests = []\<rparr>)))
     = init ''http://u:p@h'' (Some ''getinfo'') 30 (Some 0)"
    by blast+
  from b s(2-5) have 3: "aiohttp_client_session
       (fst (snd (call (init ''http://u:p@h'' None 30 None) [] Timeout
          \<lparr>id_count = 0, closed = [False], requests = []\<rparr>)))
       = Some (length (closed \<lparr>id_count = 0, closed = [False], requests = []\<rparr>))"
     and 4: "aiohttp_client_session
       (fst (snd (snd (batch (init ''http://u:p@h'' None 30 None) [[JStr ''getinfo'']] Timeout
          \<lparr>id_count = 0, closed = [False], requests = []\<rparr>))))
       = Some (length (closed \<lparr>id_count = 0, closed = [False], requests = []\<rparr>))"
     and 5: "\<forall>p. getattr (init ''http://u:p@h'' None 30 None) ''getinfo'' = Inr p \<longrightarrow>
          p \<noteq> init ''http://u:p@h'' None 30 None"
    by blast+
  from 5 have 6: "getattr (init ''http://u:p@h'' None 30 None) ''getinfo''
       \<noteq> Inr (init ''http://u:p@h'' None 30 None)"
    by blast
  from 1 2 3 4 6 show ?thesis by simp
qed

text \<open>A call on a proxy without a connection stores the one it creates in the proxy.\<close>

theorem call_sets_connection:
  "aiohttp_client_session (init ''http://u:p@h'' (Some ''getinfo'') 30 None) = None
   \<and> aiohttp_client_session
       (fst (snd (call (init ''http://u:p@h'' (Some ''getinfo'') 30 None) [] Timeout
          \<lparr>id_count = 0, closed = [], requests = []\<rparr>))) = Some 0
   \<and> aiohttp_must_close
       (fst (snd (call (init ''http://u:p@h'' (Some ''getinfo'') 30 None) [] Timeout
          \<lparr>id_count = 0, closed = [], requests = []\<rparr>)))"
  by (simp add: call_def call_eval)

section \<open>Failures of the transport\<close>

lemma get_response_any:
  "fst (get_response a resp b) = fst (get_response self resp w)"
  by (simp add: get_response_fst)

lemma call_response_fst:
  assumes "encodable (JArr args)" and "usable self w"
  shows "fst (call_response self args r w) =
           (case r of
              Timeout \<Rightarrow> Inl TimeoutError
            | Refused m \<Rightarrow> Inl (ClientError m)
            | Reply resp \<Rightarrow> fst (get_response self resp w))"
proof -
  obtain h self1 w2 where g: "get_shared_client self (w\<lparr>id_count := id_count w + 1\<rparr>) = (h, self1, w2)"
    by (metis prod_cases3)
  from g assms(2) have open_h: "\<not> (h < length (closed w2) \<and> closed w2 ! h)"
    by (auto simp: get_shared_client_def usable_def nth_append split: option.splits)
  show ?thesis
  proof (cases r)
    case Timeout
    with assms(1) g open_h show ?thesis
      by (simp add: call_response_def request_def Let_def)
  next
    case (Refused m)
    with assms(1) g open_h show ?thesis
      by (simp add: call_response_def request_def Let_def)
  next
    case (Reply resp)
    let ?w3 = "w2\<lparr>requests := requests w2
                  @ [(h, envelope (service_name self) args (id_count w + 1))]\<rparr>"
    obtain dec self2 w4 where d: "get_response self1 resp ?w3 = (dec, self2, w4)"
      by (metis prod_cases3)
    then have "dec = fst (get_response self resp w)"
      using get_response_any [of self1 resp ?w3 self w] by simp
    moreover from Reply assms(1) g open_h d have "fst (call_response self args r w) = dec"
      by (cases dec) (auto simp: call_response_def request_def Let_def split: prod.splits)
    ultimately show ?thesis using Reply by simp
  qed
qed

lemma call_fst_failure:
  "fst (call_response self args r w) = Inl e \<Longrightarrow> fst (call self args r w) = Inl e"
  by (cases "call_response self args r w") (auto simp: call_def)

text \<open>
  C8, as the code has it: for a call whose arguments are encodable, on a connection that
  takes requests, a body that does not parse and a content type that is not
  application/json surface as the RPC error with code -342, the error kind of
  protocol-level failures; a firing time limit and a failure of the client library surface
  as exceptions of their own, which the call does not turn into that kind.
\<close>

theorem transport_failures:
  assumes "encodable (JArr args)" and "usable self w"
  shows "fst (call self args Timeout w) = Inl TimeoutError
       \<and> fst (call self args (Refused m) w) = Inl (ClientError m)
       \<and> (json_body resp = None \<longrightarrow>
            fst (call self args (Reply resp) w) =
              Inl (JSONRPCException
                    \<lparr>error = rpc_error_lit (- 342) ''missing HTTP response from server'',
                     code = Some (JInt (- 342)),
                     message = Some (JStr ''missing HTTP response from server'')\<rparr>))
       \<and> (json_body resp = Some j \<and> j \<noteq> JNull \<and> content_type resp \<noteq> Some ''application/json'' \<longrightarrow>
            (\<exists>x. fst (call self args (Reply resp) w) = Inl (JSONRPCException x)
               \<and> code x = Some (JInt (- 342))))"
proof (intro conjI impI)
  show "fst (call self args Timeout w) = Inl TimeoutError"
    using call_response_fst [OF assms, of Timeout] by (simp add: call_fst_failure)
next
  show "fst (call self args (Refused m) w) = Inl (ClientError m)"
    using call_response_fst [OF assms, of "Refused m"] by (simp add: call_fst_failure)
next
  assume "json_body resp = None"
  then have "fst (call_response self args (Reply resp) w) = Inl missing_response"
    using call_response_fst [OF assms, of "Reply resp"] by (simp add: get_response_fst)
  then show "fst (call self args (Reply resp) w) =
              Inl (JSONRPCException
                    \<lparr>error = rpc_error_lit (- 342) ''missing HTTP response from server'',
                     code = Some (JInt (- 342)),
                     message = Some (JStr ''missing HTTP response from server'')\<rparr>)"
    by (simp add: call_fst_failure missing_response_def new_JSONRPCException_lit)
next
  assume "json_body resp = Some j \<and> j \<noteq> JNull \<and> content_type resp \<noteq> Some ''application/json''"
  then have "fst (call_response self args (Reply resp) w)
               = Inl (non_json_response (status resp) (reason resp))"
    using call_response_fst [OF assms, of "Reply resp"] by (simp add: get_response_fst)
  then show "\<exists>x. fst (call self args (Reply resp) w) = Inl (JSONRPCException x)
               \<and> code x = Some (JInt (- 342))"
    by (simp add: call_fst_failure non_json_response_def new_JSONRPCException_lit)
qed

theorem transport_failures_witness:
  "fst (call (init ''http://u:p@h'' (Some ''getinfo'') 30 None) [JInt 1] (Refused ''refused'')
         \<lparr>id_count = 0, closed = [], requests = []\<rparr>) = Inl (ClientError ''refused'')
   \<and> fst (call (init ''http://u:p@h'' (Some ''getinfo'') 30 None) [JInt 1]
         (Reply \<lparr>json_body = None, content_type = Some ''text/html'', status = 502,
                 reason = ''Bad Gateway''\<rparr>)
         \<lparr>id_count = 0, closed = [], requests = []\<rparr>)
     = Inl (JSONRPCException
             \<lparr>error = rpc_error_lit (- 342) ''missing HTTP response from server'',
              code = Some (JInt (- 342)),
              message = Some (JStr ''missing HTTP response from server'')\<rparr>)"
proof -
  have enc: "encodable (JArr [JInt 1])" by simp
  have us: "usable (init ''http://u:p@h'' (Some ''getinfo'') 30 None)
              \<lparr>id_count = 0, closed = [], requests = []\<rparr>"
    by (simp add: usable_def init_def)
  note t = transport_failures [OF enc us, of "''refused''"
      "\<lparr>json_body = None, content_type = Some ''text/html'', status = 502, reason = ''Bad Gateway''\<rparr>"
      JNull]
  from t show ?thesis by simp
qed

text \<open>A firing time limit reaches the caller as \<open>TimeoutError\<close>, not as the RPC error kind.\<close>

theorem timeout_not_rpc_error:
  "fst (call (init ''http://u:p@h'' (Some ''getinfo'') 30 None) [] Timeout
         \<lparr>id_count = 0, closed = [], requests = []\<rparr>) = Inl TimeoutError"
  by (simp add: call_def call_eval)

section \<open>Who closes the connection\<close>

lemma close_if_owned_not_owned:
  "\<not> aiohttp_must_close self \<Longrightarrow> close_if_owned self w = (self, w)"
  by (simp add: close_if_owned_def)

lemma get_response_not_owned:
  "\<not> aiohttp_must_close self \<Longrightarrow> snd (get_response self resp w) = (self, w)"
  by (simp add: get_response_def Let_def close_if_owned_not_owned)

lemma call_external:
  assumes "aiohttp_client_session self = Some h" and "\<not> aiohttp_must_close self"
  shows "fst (snd (call self args r w)) = self
       \<and> closed (snd (snd (call self args r w))) = closed w"
proof -
  have "fst (snd (call_response self args r w)) = self
      \<and> closed (snd (snd (call_response self args r w))) = closed w"
    using assms
    by (auto simp: call_response_def Let_def get_shared_client_def request_def
          close_if_owned_not_owned get_response_def
          split: prod.splits sum.splits reply.splits)
  then show ?thesis
    by (cases "call_response self args r w") (auto simp: call_def split: sum.splits)
qed

lemma batch_external:
  assumes "aiohttp_client_session self = Some h" and "\<not> aiohttp_must_close self"
  shows "fst (snd (snd (batch self cs r w))) = self
       \<and> closed (snd (snd (snd (batch self cs r w)))) = closed w"
proof -
  have "fst (snd (snd (batch_response self cs r w))) = self
      \<and> closed (snd (snd (snd (batch_response self cs r w)))) = closed w"
    using assms
    by (auto simp: batch_response_def Let_def get_shared_client_def request_def
          close_if_owned_not_owned get_response_def
          split: prod.splits sum.splits reply.splits)
  then show ?thesis
    by (cases "batch_response self cs r w") (auto simp: batch_def split: sum.splits)
qed

lemma invoke_external:
  assumes "aiohttp_client_session self = Some h" and "\<not> aiohttp_must_close self"
  shows "fst (invoke self i w) = self \<and> closed (snd (invoke self i w)) = closed w"
proof (cases i)
  case (Single args r)
  with call_external [OF assms, of args r w] show ?thesis by simp
next
  case (Many cs r)
  with batch_external [OF assms, of cs r w] show ?thesis by simp
qed

lemma invoke_all_external:
  "aiohttp_client_session self = Some h \<Longrightarrow> \<not> aiohttp_must_close self \<Longrightarrow>
   fst (invoke_all self is w) = self \<and> closed (snd (invoke_all self is w)) = closed w"
proof (induction "is" arbitrary: w)
  case Nil
  then show ?case by simp
next
  case (Cons i "is")
  obtain self' w' where s: "invoke self i w = (self', w')" by (metis surj_pair)
  with invoke_external [OF Cons.prems, of i w] have "self' = self" "closed w' = closed w"
    by simp_all
  with Cons.IH [OF Cons.prems, of w'] s show ?case by simp
qed

lemma call_own:
  assumes "encodable (JArr args)"
  shows "closed (snd (snd (call (init url name t None) args (Reply resp) w))) = closed w @ [True]"
proof -
  have "closed (snd (snd (call_response (init url name t None) args (Reply resp) w)))
          = closed w @ [True]"
    using assms
    by (auto simp: call_response_def Let_def get_shared_client_def request_def init_def
          close_if_owned_def close_session_def get_response_def nth_append
          split: prod.splits sum.splits)
  then show ?thesis
    by (cases "call_response (init url name t None) args (Reply resp) w")
       (auto simp: call_def split: sum.splits)
qed

lemma batch_own:
  assumes "\<forall>c \<in> set cs. c \<noteq> []" and "\<forall>c \<in> set cs. encodable (JArr c)"
  shows "closed (snd (snd (snd (batch (init url name t None) cs (Reply resp) w)))) = closed w @ [True]"
proof -
  from batch_build_ok [OF assms(1), of "id_count w"] obtain entries where
    b: "batch_build cs (id_count w) = (Inr entries, map tl cs, id_count w + int (length cs))"
       "map fst entries = map hd cs" "map (\<lambda>x. fst (snd x)) entries = map tl cs"
    by blast
  have enc: "encodable (JArr (map batch_entry entries))"
    using assms b(2,3) by (rule encodable_entries)
  have "closed (snd (snd (snd (batch_response (init url name t None) cs (Reply resp) w))))
          = closed w @ [True]"
    using b(1) enc
    by (auto simp: batch_response_def Let_def get_shared_client_def request_def init_def
          close_if_owned_def close_session_def get_response_def nth_append
          split: prod.splits sum.splits)
  then show ?thesis
    by (cases "batch_response (init url name t None) cs (Reply resp) w")
       (auto simp: batch_def split: sum.splits)
qed

text \<open>
  Who closes what: a connection handed to the constructor is never closed, whatever single
  and batch calls are made through the proxy; a proxy constructed without one creates its
  connection at the call, and once the response of that call has been read the connection
  is closed, whatever the response holds.
\<close>

lemma connection_ownership:
  "closed (snd (invoke_all (init url name t (Some h)) is w)) = closed w
   \<and> (encodable (JArr args) \<longrightarrow>
        closed (snd (snd (call (init url name t None) args (Reply resp) w))) = closed w @ [True])
   \<and> ((\<forall>c \<in> set cs. c \<noteq> []) \<and> (\<forall>c \<in> set cs. encodable (JArr c)) \<longrightarrow>
        closed (snd (snd (snd (batch (init url name t None) cs (Reply resp) w)))) = closed w @ [True])"
proof (intro conjI impI)
  show "closed (snd (invoke_all (init url name t (Some h)) is w)) = closed w"
    using invoke_all_external [of "init url name t (Some h)" h "is" w] by (simp add: init_def)
next
  assume "encodable (JArr args)"
  then show "closed (snd (snd (call (init url name t None) args (Reply resp) w))) = closed w @ [True]"
    by (rule call_own)
next
  assume "(\<forall>c \<in> set cs. c \<noteq> []) \<and> (\<forall>c \<in> set cs. encodable (JArr c))"
  then show "closed (snd (snd (snd (batch (init url name t None) cs (Reply resp) w)))) = closed w @ [True]"
    using batch_own [of cs url name t resp w] by simp
qed

lemma connection_ownership_examples:
  "closed (snd (snd (call (init ''http://u:p@h'' (Some ''getinfo'') 30 None) [JInt 1]
      (Reply \<lparr>json_body = Some (JObj [(''result'', JInt 42), (''error'', JNull), (''id'', JInt 1)]),
              content_type = Some ''application/json'', status = 200, reason = ''OK''\<rparr>)
      \<lparr>id_count = 0, closed = [False], requests = []\<rparr>))) = [False, True]
   \<and> closed (snd (snd (snd (batch (init ''http://u:p@h'' None 30 None) [[JStr ''getinfo'']]
      (Reply \<lparr>json_body = None, content_type = None, status = 500, reason = ''oops''\<rparr>)
      \<lparr>id_count = 0, closed = [False], requests = []\<rparr>)))) = [False, True]"
proof -
  note a = connection_ownership [of "''http://u:p@h''" "Some ''getinfo''" 30 0 "[]"
      "\<lparr>id_count = 0, closed = [False], requests = []\<rparr>" "[JInt 1]"
      "\<lparr>json_body = Some (JObj [(''result'', JInt 42), (''error'', JNull), (''id'', JInt 1)]),
        content_type = Some ''application/json'', status = 200, reason = ''OK''\<rparr>" "[]"]
  note b = connection_ownership [of "''http://u:p@h''" None 30 0 "[]"
      "\<lparr>id_count = 0, closed = [False], requests = []\<rparr>" "[]"
      "\<lparr>json_body = None, content_type = None, status = 500, reason = ''oops''\<rparr>"
      "[[JStr ''getinfo'']]"]
  from a b show ?thesis by simp
qed

text \<open>
  C7: the claim has a proxy that created its own connection get a fresh connection at
  every call. \<^verbatim>\<open>_get_shared_client\<close> creates one only while the field is empty, and
  nothing empties the field after \<^verbatim>\<open>close()\<close>: the second call through the same proxy
  goes to the handle that the first call created and closed, no new session is created,
  and the closed session refuses the request.
\<close>

theorem second_call_same_session:
  "(case call (init ''http://u:p@h'' (Some ''getinfo'') 30 None) []
           (Reply \<lparr>json_body = Some (JObj [(''result'', JInt 42), (''error'', JNull), (''id'', JInt 1)]),
                   content_type = Some ''application/json'', status = 200, reason = ''OK''\<rparr>)
           \<lparr>id_count = 0, closed = [], requests = []\<rparr> of
      (r1, p1, w1) \<Rightarrow>
        (case call p1 []
                (Reply \<lparr>json_body = Some (JObj [(''result'', JInt 43), (''error'', JNull), (''id'', JInt 2)]),
                        content_type = Some ''application/json'', status = 200, reason = ''OK''\<rparr>)
                w1 of
           (r2, p2, w2) \<Rightarrow> (r1, r2, map fst (requests w2), closed w2)))
   = (Inr (JInt 42), Inl (RuntimeError ''Session is closed''), [0, 0], [True])"
  by (simp add: call_def call_result_def call_eval)


section \<open>Encoding and decoding decimals\<close>

declare bitlen.simps [simp del] declen.simps [simp del] strip_zeros.simps [simp del]


















lemma dec_val_powi:
  "dec_val d = (if dec_neg d then - 1 else 1) * of_nat (dec_coeff d) * 10 powi dec_exp d"
proof (cases "0 \<le> dec_exp d")
  case True
  then show ?thesis by (simp add: dec_val_def power_int_nonneg_exp)
next
  case False
  then have "(10::rat) powi dec_exp d = 1 / 10 ^ nat (- dec_exp d)"
    by (simp add: power_int_def field_simps)
  with False show ?thesis by (simp add: dec_val_def)
qed









lemma strip_zeros_value:
  "strip_zeros m q = (m', q') \<Longrightarrow> (of_nat m' :: rat) * 10 powi q' = of_nat m * 10 powi q"
proof (induction m q rule: strip_zeros.induct)
  case (1 m q)
  show ?case
  proof (cases "m \<noteq> 0 \<and> m mod 10 = 0")
    case True
    with 1(2) have s: "strip_zeros (m div 10) (q + 1) = (m', q')"
      by (subst (asm) strip_zeros.simps) simp
    from True have m: "m = (m div 10) * 10" by auto
    have "(of_nat m' :: rat) * 10 powi q' = of_nat (m div 10) * 10 powi (q + 1)"
      using 1(1) [OF True s] .
    also have "\<dots> = of_nat (m div 10) * (10 powi q * 10)"
      by (simp add: power_int_add)
    also have "\<dots> = of_nat ((m div 10) * 10) * 10 powi q" by simp
    finally show ?thesis using m by simp
  next
    case False
    then have "strip_zeros m q = (m, q)"
      by (subst strip_zeros.simps) auto
    with 1(2) show ?thesis by simp
  qed
qed

lemma repr_literal_value:
  "dec_neg (repr_literal c) = dec_neg c
   \<and> (of_nat (dec_coeff (repr_literal c)) :: rat) * 10 powi dec_exp (repr_literal c)
       = of_nat (dec_coeff c) * 10 powi dec_exp c"
proof -
  obtain m q where s: "strip_zeros (dec_coeff c) (dec_exp c) = (m, q)" by (cases "strip_zeros (dec_coeff c) (dec_exp c)")
  note v = strip_zeros_value [OF s]
  show ?thesis
  proof (cases "0 \<le> q \<and> - 4 < q + int (declen m) \<and> q + int (declen m) \<le> 16")
    case True
    then have r: "repr_literal c = Decimal (dec_neg c) (m * 10 ^ nat (q + 1)) (- 1)"
      by (simp add: repr_literal_def s Let_def)
    from True have "nat (q + 1) = Suc (nat q)" by arith
    then have "(of_nat (m * 10 ^ nat (q + 1)) :: rat) * 10 powi (- 1) = of_nat m * 10 ^ nat q"
      by (simp add: power_int_def)
    also have "\<dots> = of_nat m * 10 powi q" using True by (simp add: power_int_nonneg_exp)
    finally show ?thesis using v by (simp add: r)
  next
    case False
    then have r: "repr_literal c = Decimal (dec_neg c) m q"
      by (simp add: repr_literal_def s Let_def)
    with v show ?thesis by simp
  qed
qed


lemma repr_literal_dec_val: "dec_val (repr_literal c) = dec_val c"
  using repr_literal_value [of c] by (simp add: dec_val_powi mult.assoc)


















text \<open>Unfolding the codec on a concrete decimal.\<close>

lemmas codec_eval =
  echo_def float_repr_def repr_literal_def repr_lengths_def repr_with_def repr_candidates_def
  float_of_decimal_def f64_nearest_def floor_log_def round8_def div_half_even_def Let_def
  bitlen.simps declen.simps strip_zeros.simps




lemma echo_literals:
  "echo (Decimal False 100 0) = Inr (Some (Decimal False 1000 (- 1)))"
  "echo (Decimal False 1 15) = Inr (Some (Decimal False (10 ^ 16) (- 1)))"
  "echo (Decimal False 1 16) = Inr (Some (Decimal False 1 16))"
  "echo (Decimal False 1 (- 5)) = Inr (Some (Decimal False 1 (- 5)))"
  "echo (Decimal False 1 (- 4)) = Inr (Some (Decimal False 1 (- 4)))"
  "echo (Decimal False 15 15) = Inr (Some (Decimal False 15 15))"
  "echo (Decimal False 0 0) = Inr (Some (Decimal False 0 (- 1)))"
  "echo (Decimal True 1 (- 9)) = Inr (Some (Decimal True 0 (- 1)))"
  "echo (Decimal False 9999999999999999999999999999 (- 8)) = Inr (Some (Decimal False 1 20))"
  by (simp_all add: codec_eval)



end
